theory Spec2Isabelle
  imports Main "HOL-Library.Sublist"
begin

section \<open>Strings and paths\<close>

text \<open>
  Python text is modelled as \<open>string\<close>, the bytes of its UTF-8 encoding. The two
  non-ASCII characters of the source's messages are written out as their bytes.
\<close>

definition arrow :: string where
  "arrow = [CHR 0xE2, CHR 0x86, CHR 0x92]"

definition warning_sign :: string where
  "warning_sign = [CHR 0xE2, CHR 0x9A, CHR 0xA0]"

text \<open>
  \<open>str.rstrip()\<close> removes trailing whitespace. \<open>space_len r\<close> is the number of
  bytes of the whitespace character that ends the text whose reversal is \<open>r\<close>
  (0 when it ends with none): the ASCII ones U+0009..U+000D, U+001C..U+0020, and the
  encodings of U+0085, U+00A0, U+1680, U+2000..U+200A, U+2028, U+2029, U+202F, U+205F
  and U+3000.
\<close>

definition ascii_space :: "char \<Rightarrow> bool" where
  "ascii_space c = (let n = of_char c :: nat in (9 \<le> n \<and> n \<le> 13) \<or> (28 \<le> n \<and> n \<le> 32))"

definition space_len :: "string \<Rightarrow> nat" where
  "space_len r =
     (case r of
        [] \<Rightarrow> 0
      | c # r1 \<Rightarrow>
          if ascii_space c then 1
          else (case r1 of
                  [] \<Rightarrow> 0
                | b # r2 \<Rightarrow>
                    if b = CHR 0xC2 \<and> (c = CHR 0x85 \<or> c = CHR 0xA0) then 2
                    else (case r2 of
                            [] \<Rightarrow> 0
                          | a # _ \<Rightarrow>
                              let x = (of_char c :: nat) in
                              if a = CHR 0xE1 \<and> b = CHR 0x9A \<and> c = CHR 0x80 then 3
                              else if a = CHR 0xE2 \<and> b = CHR 0x80
                                      \<and> ((0x80 \<le> x \<and> x \<le> 0x8A) \<or> x = 0xA8 \<or> x = 0xA9 \<or> x = 0xAF)
                                   then 3
                              else if a = CHR 0xE2 \<and> b = CHR 0x81 \<and> c = CHR 0x9F then 3
                              else if a = CHR 0xE3 \<and> b = CHR 0x80 \<and> c = CHR 0x80 then 3
                              else 0)))"

function rstrip_rev :: "string \<Rightarrow> string" where
  "rstrip_rev r = (if space_len r = 0 then r else rstrip_rev (drop (space_len r) r))"
  by pat_completeness auto
termination
proof (relation "measure length")
  show "wf (measure length)" by simp
next
  fix r :: string
  assume "space_len r \<noteq> 0"
  then have "r \<noteq> []" by (auto simp: space_len_def)
  with \<open>space_len r \<noteq> 0\<close> show "(drop (space_len r) r, r) \<in> measure length"
    by simp
qed

definition rstrip :: "string \<Rightarrow> string" where
  "rstrip s = rev (rstrip_rev (rev s))"

text \<open>\<open>str.split('/')\<close>: the pieces between the separators, empty ones included.\<close>

fun split_sep :: "string \<Rightarrow> string list" where
  "split_sep [] = [[]]"
| "split_sep (c # cs) =
     (if c = CHR ''/'' then [] # split_sep cs
      else (case split_sep cs of
              [] \<Rightarrow> [[c]]
            | w # ws \<Rightarrow> (c # w) # ws))"

text \<open>
  \<open>"/".join(xs)\<close>.
\<close>

fun join_sep :: "string list \<Rightarrow> string" where
  "join_sep [] = []"
| "join_sep [x] = x"
| "join_sep (x # y # ys) = x @ ''/'' @ join_sep (y # ys)"

text \<open>
  A \<open>pathlib\<close> path of the POSIX flavour (no drive): its root, which is empty, \<open>/\<close>
  or \<open>//\<close>, and its components. \<open>Path\<close> is the constructor from a string: the root
  is split off (exactly two leading slashes are kept as they are), and the empty and
  the \<open>.\<close> components are dropped.
\<close>

record path =
  anchor :: string
  segs :: "string list"

definition splitroot :: "string \<Rightarrow> string \<times> string" where
  "splitroot p =
     (if take 1 p \<noteq> ''/'' then ([], p)
      else if take 1 (drop 1 p) \<noteq> ''/'' \<or> take 1 (drop 2 p) = ''/'' then (''/'', drop 1 p)
      else (take 2 p, drop 2 p))"

definition rel_segs :: "string \<Rightarrow> string list" where
  "rel_segs rel = filter (\<lambda>x. x \<noteq> [] \<and> x \<noteq> ''.'') (split_sep rel)"

definition Path :: "string \<Rightarrow> path" where
  "Path p = (case splitroot p of (r, rel) \<Rightarrow> \<lparr>anchor = r, segs = rel_segs rel\<rparr>)"

text \<open>\<open>str(p)\<close>; the empty relative path prints as \<open>.\<close>\<close>

definition str_path :: "path \<Rightarrow> string" where
  "str_path p =
     (if anchor p = [] \<and> segs p = [] then ''.''
      else anchor p @ join_sep (segs p))"

text \<open>\<open>p / key\<close>: an absolute \<open>key\<close> replaces \<open>p\<close>, any other is appended.\<close>

definition joinpath :: "path \<Rightarrow> string \<Rightarrow> path" where
  "joinpath p key =
     (if take 1 key = ''/'' then Path key
      else \<lparr>anchor = anchor p, segs = segs p @ rel_segs key\<rparr>)"

text \<open>\<open>p.parent\<close>; a path without components is its own parent.\<close>

definition parent :: "path \<Rightarrow> path" where
  "parent p = \<lparr>anchor = anchor p, segs = butlast (segs p)\<rparr>"

section \<open>Exceptions\<close>

datatype exc_class =
  RuntimeError | TypeError | ValueError | FileExistsError | FileNotFoundError | NotADirectoryError
  | LibraryError

text \<open>An exception is its class and the text \<open>str(e)\<close> gives.\<close>

datatype exception = Exception exc_class string

fun str_exc :: "exception \<Rightarrow> string" where
  "str_exc (Exception _ msg) = msg"

text \<open>The class of an exception, as \<open>type(e)\<close> gives it.\<close>

fun type_exc :: "exception \<Rightarrow> exc_class" where
  "type_exc (Exception cls _) = cls"

text \<open>
  The text of an \<open>OSError\<close> raised for a file name (for names that \<open>repr\<close> leaves
  as they are between single quotes).
\<close>

definition os_error :: "exc_class \<Rightarrow> string \<Rightarrow> path \<Rightarrow> exception" where
  "os_error cls what p = Exception cls (what @ '': '' @ [CHR 0x27] @ str_path p @ [CHR 0x27])"

section \<open>The world of a worker\<close>

text \<open>
  What reaches a slot: \<open>log\<close> with a line, and the \<open>finished\<close> signal of each worker
  class. The segmentation worker's carries nothing. The conversion worker's is connected
  to \<open>on_nifti_done\<close>, which tests its argument for \<open>None\<close>: the argument is kept
  optional here, and what the worker can send is settled by \<open>finished_emit\<close> below.
\<close>

datatype signal = Log string | NiftiFinished "path option" | SegFinished

text \<open>What a worker does to the outside, in the order it does it.\<close>

datatype action =
  Emit signal
  | MkdirA path
  | ExecuteA "string list"
  | WriteImageA path
  | PopenA "string list"

text \<open>
  The file system as far as the workers create in it (existing directories, existing
  other files), and the trace of actions so far.
\<close>

record world =
  dirs :: "path list"
  files :: "path list"
  trace :: "action list"

definition act :: "action \<Rightarrow> world \<Rightarrow> world" where
  "act a w = w\<lparr>trace := trace w @ [a]\<rparr>"

definition emit :: "signal \<Rightarrow> world \<Rightarrow> world" where
  "emit sg w = act (Emit sg) w"

text \<open>
  \<open>os.mkdir\<close>: the parent must be an existing directory and the path must not exist.
\<close>

definition os_mkdir :: "path \<Rightarrow> world \<Rightarrow> exception + world" where
  "os_mkdir p w =
     (if segs p = [] then Inl (os_error FileExistsError ''[Errno 17] File exists'' p)
      else if parent p \<in> set (files w)
        then Inl (os_error NotADirectoryError ''[Errno 20] Not a directory'' p)
      else if parent p \<notin> set (dirs w)
        then Inl (os_error FileNotFoundError ''[Errno 2] No such file or directory'' p)
      else if p \<in> set (dirs w) \<or> p \<in> set (files w)
        then Inl (os_error FileExistsError ''[Errno 17] File exists'' p)
      else Inr (w\<lparr>dirs := dirs w @ [p]\<rparr>))"

definition is_FileNotFound :: "exception \<Rightarrow> bool" where
  "is_FileNotFound e = (case e of Exception cls _ \<Rightarrow> cls = FileNotFoundError)"

text \<open>
  \<open>Path.mkdir(exist_ok=True)\<close>, without \<open>parents\<close>: the error of \<open>os.mkdir\<close> is
  swallowed exactly when the path is a directory already.
\<close>

definition mkdir_exist_ok :: "path \<Rightarrow> world \<Rightarrow> exception + world" where
  "mkdir_exist_ok p w =
     (case os_mkdir p w of
        Inr w' \<Rightarrow> Inr w'
      | Inl e \<Rightarrow>
          if is_FileNotFound e then Inl e
          else if p \<in> set (dirs w) then Inr w else Inl e)"

text \<open>
  \<open>Path.mkdir(parents=True, exist_ok=True)\<close>: on a missing parent, the parent is made
  the same way first, then the path itself. The recursion is on the components, given
  here as the reversed list \<open>rs\<close>.
\<close>

fun mkdir_parents_rev :: "string \<Rightarrow> string list \<Rightarrow> world \<Rightarrow> exception + world" where
  "mkdir_parents_rev a [] w = mkdir_exist_ok \<lparr>anchor = a, segs = []\<rparr> w"
| "mkdir_parents_rev a (x # rs) w =
     (let p = \<lparr>anchor = a, segs = rev (x # rs)\<rparr> in
      case os_mkdir p w of
        Inr w' \<Rightarrow> Inr w'
      | Inl e \<Rightarrow>
          if is_FileNotFound e then
            (case mkdir_parents_rev a rs w of
               Inl e' \<Rightarrow> Inl e'
             | Inr w' \<Rightarrow> mkdir_exist_ok p w')
          else if p \<in> set (dirs w) then Inr w else Inl e)"

definition mkdir_parents :: "path \<Rightarrow> world \<Rightarrow> exception + world" where
  "mkdir_parents p w = mkdir_parents_rev (anchor p) (rev (segs p)) w"

text \<open>
  The collaborators outside the program: the DICOM library (the series found in a
  directory, the files of a series, reading them into an image, writing an image) and
  the external executables (a launch that fails, or the lines of the combined output
  and the exit code).
\<close>

record 'img env =
  series_ids :: "string \<Rightarrow> string list"
  series_files :: "string \<Rightarrow> string \<Rightarrow> string list"
  execute :: "string list \<Rightarrow> exception + 'img"
  write_image :: "'img \<Rightarrow> string \<Rightarrow> exception option"
  popen :: "string list \<Rightarrow> exception + (string list \<times> int)"

section \<open>Worker: DICOM to NIfTI\<close>

text \<open>
  Python's \<open>max(xs, key=f)\<close>: the first element is the candidate, and a later one
  replaces it only when its key is greater; an empty sequence raises \<open>ValueError\<close>.
\<close>

fun max_from :: "('a \<Rightarrow> nat) \<Rightarrow> 'a \<Rightarrow> 'a list \<Rightarrow> 'a" where
  "max_from key best [] = best"
| "max_from key best (x # xs) =
     (if key best < key x then max_from key x xs else max_from key best xs)"

definition py_max :: "('a \<Rightarrow> nat) \<Rightarrow> 'a list \<Rightarrow> exception + 'a" where
  "py_max key xs =
     (case xs of
        [] \<Rightarrow> Inl (Exception ValueError ''max() arg is an empty sequence'')
      | x # rest \<Rightarrow> Inr (max_from key x rest))"

text \<open>
  The series the conversion picks among the identifiers found in directory \<open>d\<close>:
  the check for no series, then \<open>max\<close> with the number of files as the key.
\<close>

definition best_series :: "'img env \<Rightarrow> string \<Rightarrow> exception + string" where
  "best_series en d =
     (let ids = series_ids en d in
      if ids = [] then Inl (Exception RuntimeError ''No DICOM series found'')
      else py_max (\<lambda>sid. length (series_files en d sid)) ids)"

record dicom_worker =
  dw_dicom_dir :: path
  dw_output_dir :: path

text \<open>
  \<open>finished.emit\<close> of the conversion worker. The signal is declared as
  \<open>pyqtSignal(Path)\<close>, and \<open>emit\<close> checks its argument against the declared class: a path
  is sent to the slot, while \<open>None\<close> is no \<open>Path\<close>, so that \<open>emit\<close> raises \<open>TypeError\<close>
  and sends nothing. The wording of the message is the binding's.
\<close>

definition finished_emit :: "path option \<Rightarrow> world \<Rightarrow> exception + world" where
  "finished_emit arg w =
     (case arg of
        Some p \<Rightarrow> Inr (emit (NiftiFinished (Some p)) w)
      | None \<Rightarrow>
          Inl (Exception TypeError
                 (''DicomToNiftiWorker.finished[Path].emit(): argument 1 has unexpected type ''
                  @ [CHR 0x27] @ ''NoneType'' @ [CHR 0x27])))"

text \<open>The body of \<open>run\<close> inside \<open>try\<close>: the exception raised, if any, and the world.\<close>

definition dicom_body :: "'img env \<Rightarrow> dicom_worker \<Rightarrow> world \<Rightarrow> (exception + unit) \<times> world" where
  "dicom_body en self w0 =
     (let w1 = act (MkdirA (dw_output_dir self)) w0 in
      case mkdir_parents (dw_output_dir self) w1 of
        Inl e \<Rightarrow> (Inl e, w1)
      | Inr w2 \<Rightarrow>
          let nifti_path = joinpath (dw_output_dir self) ''ct.nii.gz'';
              w3 = emit (Log ''Reading DICOM folder...'') w2;
              d = str_path (dw_dicom_dir self)
          in case best_series en d of
               Inl e \<Rightarrow> (Inl e, w3)
             | Inr best \<Rightarrow>
                 let fs = series_files en d best;
                     w4 = act (ExecuteA fs) w3
                 in case execute en fs of
                      Inl e \<Rightarrow> (Inl e, w4)
                    | Inr img \<Rightarrow>
                        let w5 = act (WriteImageA nifti_path) w4 in
                        case write_image en img (str_path nifti_path) of
                          Some e \<Rightarrow> (Inl e, w5)
                        | None \<Rightarrow>
                            let w6 = w5\<lparr>files := List.insert nifti_path (files w5)\<rparr>;
                                w7 = emit (Log (''NIfTI created: '' @ str_path nifti_path)) w6
                            in case finished_emit (Some nifti_path) w7 of
                                 Inl e \<Rightarrow> (Inl e, w7)
                               | Inr w8 \<Rightarrow> (Inr (), w8))"

text \<open>
  \<open>run\<close>: the handler logs the exception and calls \<open>finished.emit\<close> with \<open>None\<close>. What
  that call raises is raised by \<open>run\<close> itself, outside any \<open>try\<close>.
\<close>

definition dicom_run :: "'img env \<Rightarrow> dicom_worker \<Rightarrow> world \<Rightarrow> (exception + unit) \<times> world" where
  "dicom_run en self w =
     (case dicom_body en self w of
        (Inr _, w') \<Rightarrow> (Inr (), w')
      | (Inl e, w') \<Rightarrow>
          let w1 = emit (Log (''ERROR: '' @ str_exc e)) w' in
          case finished_emit None w1 of
            Inl x \<Rightarrow> (Inl x, w1)
          | Inr w2 \<Rightarrow> (Inr (), w2))"

section \<open>Worker: segmentation\<close>

record seg_worker =
  sw_nifti_path :: path
  sw_output_dir :: path
  sw_method :: string
  sw_model :: string
  sw_device :: string
  sw_ts_task :: string

text \<open>The loop over the lines of the process's output: each is stripped and logged.\<close>

fun stream_lines :: "string list \<Rightarrow> world \<Rightarrow> world" where
  "stream_lines [] w = w"
| "stream_lines (line # rest) w = stream_lines rest (emit (Log (rstrip line)) w)"

text \<open>
  The method \<open>_run\<close>: launch, stream, wait; an exit code other than 0 raises.
\<close>

definition run_cmd :: "'img env \<Rightarrow> string list \<Rightarrow> world \<Rightarrow> (exception + unit) \<times> world" where
  "run_cmd en cmd w0 =
     (let w1 = act (PopenA cmd) w0 in
      case popen en cmd of
        Inl e \<Rightarrow> (Inl e, w1)
      | Inr (lines, returncode) \<Rightarrow>
          let w2 = stream_lines lines w1 in
          if returncode \<noteq> 0 then (Inl (Exception RuntimeError ''Segmentation failed''), w2)
          else (Inr (), w2))"

definition skellytour_cmd :: "seg_worker \<Rightarrow> string list" where
  "skellytour_cmd self =
     [''skellytour'',
      ''-i'', str_path (sw_nifti_path self),
      ''-o'', str_path (sw_output_dir self),
      ''-m'', sw_model self,
      ''-d'', sw_device self,
      ''--overwrite'']"

definition run_skellytour :: "'img env \<Rightarrow> seg_worker \<Rightarrow> world \<Rightarrow> (exception + unit) \<times> world" where
  "run_skellytour en self w0 =
     (let w1 = emit (Log ''Running Skellytour...'') w0
      in run_cmd en (skellytour_cmd self) w1)"

definition ts_out_dir :: "seg_worker \<Rightarrow> path" where
  "ts_out_dir self = joinpath (sw_output_dir self) (''segmentations_'' @ sw_ts_task self)"

definition totalsegmentator_cmd :: "seg_worker \<Rightarrow> string list" where
  "totalsegmentator_cmd self =
     [''TotalSegmentator'',
      ''-i'', str_path (sw_nifti_path self),
      ''-o'', str_path (ts_out_dir self),
      ''-ta'', sw_ts_task self]"

definition run_totalsegmentator ::
  "'img env \<Rightarrow> seg_worker \<Rightarrow> world \<Rightarrow> (exception + unit) \<times> world" where
  "run_totalsegmentator en self w0 =
     (let w1 = emit (Log (''Running TotalSegmentator (task: '' @ sw_ts_task self @ '')'')) w0;
          out_dir = ts_out_dir self;
          w2 = act (MkdirA out_dir) w1
      in case mkdir_exist_ok out_dir w2 of
           Inl e \<Rightarrow> (Inl e, w2)
         | Inr w3 \<Rightarrow> run_cmd en (totalsegmentator_cmd self) w3)"

definition seg_body :: "'img env \<Rightarrow> seg_worker \<Rightarrow> world \<Rightarrow> (exception + unit) \<times> world" where
  "seg_body en self w =
     (if sw_method self = ''Skellytour'' then run_skellytour en self w
      else run_totalsegmentator en self w)"

text \<open>\<open>run\<close>: \<open>finished\<close> is emitted at the end of \<open>try\<close> and at the end of the handler.\<close>

definition seg_run :: "'img env \<Rightarrow> seg_worker \<Rightarrow> world \<Rightarrow> world" where
  "seg_run en self w =
     (case seg_body en self w of
        (Inr _, w') \<Rightarrow> emit SegFinished w'
      | (Inl e, w') \<Rightarrow> emit SegFinished (emit (Log (''ERROR: '' @ str_exc e)) w'))"

text \<open>The signals of a trace, in order.\<close>

fun signals :: "action list \<Rightarrow> signal list" where
  "signals [] = []"
| "signals (Emit sg # as) = sg # signals as"
| "signals (_ # as) = signals as"

section \<open>Main UI\<close>

definition TOTAL_SEGMENTATOR_TASKS :: "(string \<times> string list) list" where
  "TOTAL_SEGMENTATOR_TASKS =
     [(''CT (default)'',
       [''total'', ''lung_vessels'', ''body'', ''cerebral_bleed'', ''hip_implant'',
        ''pleural_pericard_effusion'', ''head_glands_cavities'', ''head_muscles'',
        ''headneck_bones_vessels'', ''headneck_muscles'', ''liver_vessels'',
        ''oculomotor_muscles'', ''lung_nodules'', ''kidney_cysts'', ''breasts'',
        ''liver_segments'', ''craniofacial_structures'', ''abdominal_muscles'', ''teeth'',
        ''trunk_cavities'', ''vertebrae_body'', ''brain_structures'', ''coronary_arteries'',
        ''face'']),
      (''MR (_mr)'',
       [''total_mr'', ''body_mr'', ''vertebrae_mr'', ''liver_segments_mr'',
        ''appendicular_bones_mr'', ''tissue_types_mr'', ''face_mr'',
        ''thigh_shoulder_muscles_mr'']),
      (''Special / Licensed'',
       [''heartchambers_highres'', ''appendicular_bones'', ''tissue_types'',
        ''tissue_4_types'', ''brain_aneurysm''])]"

definition group_header :: "string \<Rightarrow> string" where
  "group_header g = ''--- '' @ g @ '' ---''"

text \<open>The items of the three fixed boxes and of the task box, as \<open>__init__\<close> adds them.\<close>

definition method_items :: "string list" where
  "method_items = [''Skellytour'', ''TotalSegmentator'']"

definition model_items :: "string list" where
  "model_items = [''low'', ''medium'', ''high'']"

definition device_items :: "string list" where
  "device_items = [''gpu'', ''cpu'']"

definition ts_task_items :: "string list" where
  "ts_task_items = concat (map (\<lambda>(g, tasks). group_header g # tasks) TOTAL_SEGMENTATOR_TASKS)"

datatype worker = DicomW dicom_worker | SegW seg_worker

fun is_dicom :: "worker \<Rightarrow> bool" where
  "is_dicom (DicomW _) = True"
| "is_dicom (SegW _) = False"

fun is_seg :: "worker \<Rightarrow> bool" where
  "is_seg (SegW _) = True"
| "is_seg (DicomW _) = False"

text \<open>
  The widget: the three attributes, the current text of each box, which controls are
  enabled, the lines of the log box, the warning dialogs shown (title and text), the
  attribute \<open>worker\<close>, and the threads started and not yet finished.
\<close>

record ui =
  dicom_dir :: "string option"
  output_dir :: "string option"
  nifti_path :: "path option"
  method_box :: string
  model_box :: string
  device_box :: string
  ts_task_box :: string
  btn_convert_enabled :: bool
  run_btn_enabled :: bool
  model_box_enabled :: bool
  device_box_enabled :: bool
  ts_task_box_enabled :: bool
  log_box :: "string list"
  dialogs :: "(string \<times> string) list"
  worker :: "worker option"
  running :: "worker list"

definition log :: "string \<Rightarrow> ui \<Rightarrow> ui" where
  "log t s = s\<lparr>log_box := log_box s @ [t]\<rparr>"

definition warning :: "string \<Rightarrow> string \<Rightarrow> ui \<Rightarrow> ui" where
  "warning title t s = s\<lparr>dialogs := dialogs s @ [(title, t)]\<rparr>"

text \<open>\<open>QThread.start\<close>: the thread is in flight from here on.\<close>

definition start :: "worker \<Rightarrow> ui \<Rightarrow> ui" where
  "start wk s = s\<lparr>running := running s @ [wk]\<rparr>"

definition on_method_changed :: "string \<Rightarrow> ui \<Rightarrow> ui" where
  "on_method_changed method s =
     (let skel = (method = ''Skellytour'') in
      s\<lparr>model_box_enabled := skel, device_box_enabled := skel, ts_task_box_enabled := \<not> skel\<rparr>)"

text \<open>The state \<open>__init__\<close> leaves: every box at its first item.\<close>

definition init :: ui where
  "init =
     on_method_changed (hd method_items)
       \<lparr>dicom_dir = None, output_dir = None, nifti_path = None,
        method_box = hd method_items, model_box = hd model_items,
        device_box = hd device_items, ts_task_box = hd ts_task_items,
        btn_convert_enabled = True, run_btn_enabled = True,
        model_box_enabled = True, device_box_enabled = True, ts_task_box_enabled = True,
        log_box = [], dialogs = [], worker = None, running = []\<rparr>"

text \<open>The two selection handlers, given what the directory dialog returned.\<close>

definition select_dicom :: "string \<Rightarrow> ui \<Rightarrow> ui" where
  "select_dicom p s = (if p \<noteq> [] then log (''DICOM: '' @ p) (s\<lparr>dicom_dir := Some p\<rparr>) else s)"

definition select_output :: "string \<Rightarrow> ui \<Rightarrow> ui" where
  "select_output p s = (if p \<noteq> [] then log (''Output: '' @ p) (s\<lparr>output_dir := Some p\<rparr>) else s)"

text \<open>Truth value of an attribute that is \<open>None\<close> or a string.\<close>

fun truthy :: "string option \<Rightarrow> bool" where
  "truthy None = False"
| "truthy (Some x) = (x \<noteq> [])"

definition convert_dicom :: "ui \<Rightarrow> ui" where
  "convert_dicom s =
     (if \<not> truthy (dicom_dir s) \<or> \<not> truthy (output_dir s)
      then warning ''Missing Input'' ''Select DICOM and output folders'' s
      else
        let s1 = log (''Converting DICOM '' @ arrow @ '' NIfTI...'' @ [CHR 0x0A]) s;
            s2 = s1\<lparr>btn_convert_enabled := False\<rparr>;
            wk = DicomW \<lparr>dw_dicom_dir = Path (the (dicom_dir s2)),
                         dw_output_dir = Path (the (output_dir s2))\<rparr>
        in start wk (s2\<lparr>worker := Some wk\<rparr>))"

definition on_nifti_done :: "path option \<Rightarrow> ui \<Rightarrow> ui" where
  "on_nifti_done nifti s =
     (let s1 = s\<lparr>btn_convert_enabled := True\<rparr> in
      case nifti of
        Some p \<Rightarrow> log ([CHR 0x0A] @ ''NIfTI conversion done.'' @ [CHR 0x0A]) (s1\<lparr>nifti_path := Some p\<rparr>)
      | None \<Rightarrow> log ([CHR 0x0A] @ ''NIfTI conversion failed.'' @ [CHR 0x0A]) s1)"

text \<open>
  \<open>run_segmentation\<close>. The worker's constructor calls \<open>Path\<close> on \<open>output_dir\<close>,
  which raises \<open>TypeError\<close> on \<open>None\<close>: then the handler raises.
\<close>

definition run_segmentation :: "ui \<Rightarrow> exception + ui" where
  "run_segmentation s =
     (case nifti_path s of
        None \<Rightarrow> Inr (warning ''Missing NIfTI'' (''Run DICOM '' @ arrow @ '' NIfTI first'') s)
      | Some np \<Rightarrow>
          let task = ts_task_box s in
          if prefix ''---'' task
          then Inr (warning ''Invalid Task'' ''Select a valid TotalSegmentator task'' s)
          else
            let s1 = (if suffix ''_mr'' task
                      then log (warning_sign @ '' WARNING: MR task selected. Ensure MR input.''
                                @ [CHR 0x0A]) s
                      else s);
                s2 = log (''Starting segmentation...'' @ [CHR 0x0A]) s1;
                s3 = s2\<lparr>run_btn_enabled := False\<rparr>
            in case output_dir s3 of
                 None \<Rightarrow>
                   Inl (Exception TypeError
                          ''expected str, bytes or os.PathLike object, not NoneType'')
               | Some od \<Rightarrow>
                   let wk = SegW \<lparr>sw_nifti_path = np, sw_output_dir = Path od,
                                  sw_method = method_box s3, sw_model = model_box s3,
                                  sw_device = device_box s3, sw_ts_task = task\<rparr>
                   in Inr (start wk (s3\<lparr>worker := Some wk\<rparr>)))"

definition on_finished :: "ui \<Rightarrow> ui" where
  "on_finished s = log ([CHR 0x0A] @ ''Done.'' @ [CHR 0x0A]) (s\<lparr>run_btn_enabled := True\<rparr>)"

text \<open>A signal of a worker arrives at the slot connected to it.\<close>

fun deliver :: "signal \<Rightarrow> ui \<Rightarrow> ui" where
  "deliver (Log t) s = log t s"
| "deliver (NiftiFinished nifti) s = on_nifti_done nifti s"
| "deliver SegFinished s = on_finished s"

subsection \<open>The event loop\<close>

text \<open>
  What can happen to the widget: a directory dialog returns, a button is clicked, an
  item of a box is chosen, a signal of a worker is delivered. A disabled control does
  not react. A \<open>finished\<close> signal comes from a thread in flight, which ends with it.
\<close>

datatype event =
  SelectDicom string
  | SelectOutput string
  | ClickConvert
  | ClickRun
  | ChooseMethod string
  | ChooseModel string
  | ChooseDevice string
  | ChooseTask string
  | Deliver signal

fun remove_first :: "('a \<Rightarrow> bool) \<Rightarrow> 'a list \<Rightarrow> 'a list" where
  "remove_first P [] = []"
| "remove_first P (x # xs) = (if P x then xs else x # remove_first P xs)"

fun step :: "event \<Rightarrow> ui \<Rightarrow> exception + ui" where
  "step (SelectDicom p) s = Inr (select_dicom p s)"
| "step (SelectOutput p) s = Inr (select_output p s)"
| "step ClickConvert s = (if btn_convert_enabled s then Inr (convert_dicom s) else Inr s)"
| "step ClickRun s = (if run_btn_enabled s then run_segmentation s else Inr s)"
| "step (ChooseMethod m) s =
     (if m \<in> set method_items \<and> m \<noteq> method_box s
      then Inr (on_method_changed m (s\<lparr>method_box := m\<rparr>)) else Inr s)"
| "step (ChooseModel m) s =
     (if model_box_enabled s \<and> m \<in> set model_items then Inr (s\<lparr>model_box := m\<rparr>) else Inr s)"
| "step (ChooseDevice d) s =
     (if device_box_enabled s \<and> d \<in> set device_items then Inr (s\<lparr>device_box := d\<rparr>) else Inr s)"
| "step (ChooseTask t) s =
     (if ts_task_box_enabled s \<and> t \<in> set ts_task_items then Inr (s\<lparr>ts_task_box := t\<rparr>) else Inr s)"
| "step (Deliver (Log t)) s = Inr (log t s)"
| "step (Deliver (NiftiFinished nifti)) s =
     (if \<exists>wk \<in> set (running s). is_dicom wk
      then Inr (on_nifti_done nifti (s\<lparr>running := remove_first is_dicom (running s)\<rparr>))
      else Inr s)"
| "step (Deliver SegFinished) s =
     (if \<exists>wk \<in> set (running s). is_seg wk
      then Inr (on_finished (s\<lparr>running := remove_first is_seg (running s)\<rparr>))
      else Inr s)"

fun exec :: "event list \<Rightarrow> ui \<Rightarrow> exception + ui" where
  "exec [] s = Inr s"
| "exec (e # es) s = (case step e s of Inl x \<Rightarrow> Inl x | Inr s' \<Rightarrow> exec es s')"

section \<open>Concrete inputs\<close>

text \<open>
  A directory with three series, of 2, 3 and 3 files, a DICOM library that reads and
  writes without error, and an executable that prints three lines and exits with 0.
\<close>

definition env0 :: "unit env" where
  "env0 =
     \<lparr>series_ids = (\<lambda>d. if d = ''/scan'' then [''1.2.1'', ''1.2.2'', ''1.2.3''] else []),
      series_files = (\<lambda>d sid.
         if sid = ''1.2.1'' then [''a1.dcm'', ''a2.dcm'']
         else if sid = ''1.2.2'' then [''b1.dcm'', ''b2.dcm'', ''b3.dcm'']
         else if sid = ''1.2.3'' then [''c1.dcm'', ''c2.dcm'', ''c3.dcm'']
         else []),
      execute = (\<lambda>fs. Inr ()),
      write_image = (\<lambda>img p. None),
      popen = (\<lambda>cmd. Inr ([''loading '' @ [CHR 0x0A], ''predicting'' @ [CHR 0x0A], ''saving  '' @ [CHR 0x0A]], 0))\<rparr>"

text \<open>
  The events up to a finished conversion, and on to the choice of the task \<open>total\<close>
  of TotalSegmentator, with the states they lead to.
\<close>

definition evs_converted :: "event list" where
  "evs_converted =
     [SelectDicom ''/scan'', SelectOutput ''/out'', ClickConvert,
      Deliver (NiftiFinished (Some (Path ''/out/ct.nii.gz'')))]"

definition evs_total :: "event list" where
  "evs_total = evs_converted @ [ChooseMethod ''TotalSegmentator'', ChooseTask ''total'']"

definition ui_converted :: ui where
  "ui_converted = projr (exec evs_converted init)"

definition ui_total :: ui where
  "ui_total = projr (exec evs_total init)"


definition world0 :: world where
  "world0 = \<lparr>dirs = [Path ''/''], files = [], trace = []\<rparr>"

definition dw0 :: dicom_worker where
  "dw0 = \<lparr>dw_dicom_dir = Path ''/scan'', dw_output_dir = Path ''/out''\<rparr>"

text \<open>
  An executable that prints three lines and exits with 1, and a segmentation worker
  on the converted volume.
\<close>

definition env_fail :: "unit env" where
  "env_fail =
     env0\<lparr>popen := (\<lambda>cmd. Inr ([''loading '' @ [CHR 0x0A], ''predicting'' @ [CHR 0x0A],
                                  ''out of memory'' @ [CHR 0x0A]], 1))\<rparr>"

definition sw0 :: seg_worker where
  "sw0 =
     \<lparr>sw_nifti_path = Path ''/out/ct.nii.gz'', sw_output_dir = Path ''/out'',
      sw_method = ''Skellytour'', sw_model = ''medium'', sw_device = ''cpu'',
      sw_ts_task = ''total''\<rparr>"

text \<open>The same with the task \<open>total_mr\<close> chosen, and the text of the MR advisory.\<close>

definition evs_mr :: "event list" where
  "evs_mr = evs_converted @ [ChooseMethod ''TotalSegmentator'', ChooseTask ''total_mr'']"

definition ui_mr :: ui where
  "ui_mr = projr (exec evs_mr init)"

definition advisory :: string where
  "advisory = warning_sign @ '' WARNING: MR task selected. Ensure MR input.'' @ [CHR 0x0A]"

text \<open>A DICOM library whose reader raises.\<close>

definition env_bad :: "unit env" where
  "env_bad = env0\<lparr>execute := (\<lambda>fs. Inl (Exception LibraryError ''cannot read series''))\<rparr>"

definition sw_total :: seg_worker where
  "sw_total =
     \<lparr>sw_nifti_path = Path ''/out/ct.nii.gz'', sw_output_dir = Path ''/out'',
      sw_method = ''TotalSegmentator'', sw_model = ''low'', sw_device = ''gpu'',
      sw_ts_task = ''total''\<rparr>"

definition world_out :: world where
  "world_out = \<lparr>dirs = [Path ''/'', Path ''/out''], files = [Path ''/out/ct.nii.gz''], trace = []\<rparr>"

definition evs_both :: "event list" where
  "evs_both = evs_total @ [ClickRun, ClickConvert]"

definition ui_both :: ui where
  "ui_both = projr (exec evs_both init)"

text \<open>The worker a run request creates in \<open>ui_mr\<close>.\<close>

definition sw_mr :: seg_worker where
  "sw_mr =
     \<lparr>sw_nifti_path = Path ''/out/ct.nii.gz'', sw_output_dir = Path ''/out'',
      sw_method = ''TotalSegmentator'', sw_model = ''low'', sw_device = ''gpu'',
      sw_ts_task = ''total_mr''\<rparr>"



definition ui_converting :: ui where
  "ui_converting = projr (exec [SelectDicom ''/scan'', SelectOutput ''/out'', ClickConvert] init)"

section \<open>Series selection\<close>

text \<open>
  \<open>max_from\<close> returns an element of the list such that every element before it has a
  smaller key and no element after it has a greater one.
\<close>

lemma max_from_split:
  "\<exists>pre post. b # xs = pre @ max_from key b xs # post
     \<and> (\<forall>p \<in> set pre. key p < key (max_from key b xs))
     \<and> (\<forall>q \<in> set post. key q \<le> key (max_from key b xs))"
proof (induction xs arbitrary: b)
  case Nil
  have "[b] = [] @ max_from key b [] # []
        \<and> (\<forall>p \<in> set []. key p < key (max_from key b []))
        \<and> (\<forall>q \<in> set []. key q \<le> key (max_from key b []))"
    by simp
  then show ?case by blast
next
  case (Cons x xs)
  show ?case
  proof (cases "key b < key x")
    case True
    define m where "m = max_from key x xs"
    have step: "max_from key b (x # xs) = m" using True by (simp add: m_def)
    from Cons.IH [of x] obtain pre post where
      eq: "x # xs = pre @ m # post"
      and lt: "\<forall>p \<in> set pre. key p < key m"
      and le: "\<forall>q \<in> set post. key q \<le> key m"
      unfolding m_def by blast
    have "x \<in> set (pre @ m # post)" using eq by (metis list.set_intros(1))
    then have "key x \<le> key m" using lt le by auto
    with True have "key b < key m" by simp
    with lt have lt': "\<forall>p \<in> set (b # pre). key p < key m" by simp
    have "b # x # xs = (b # pre) @ m # post" using eq by simp
    with lt' le show ?thesis unfolding step by blast
  next
    case False
    define m where "m = max_from key b xs"
    have step: "max_from key b (x # xs) = m" using False by (simp add: m_def)
    from Cons.IH [of b] obtain pre post where
      eq: "b # xs = pre @ m # post"
      and lt: "\<forall>p \<in> set pre. key p < key m"
      and le: "\<forall>q \<in> set post. key q \<le> key m"
      unfolding m_def by blast
    show ?thesis
    proof (cases pre)
      case Nil
      with eq have b: "m = b" and xs: "xs = post" by simp_all
      have le': "\<forall>q \<in> set (x # post). key q \<le> key m" using False le b by simp
      have "b # x # xs = [] @ m # (x # post)" using b xs by simp
      moreover have "\<forall>p \<in> set []. key p < key m" by simp
      ultimately show ?thesis using le' unfolding step by blast
    next
      case (Cons p pre')
      with eq have p: "p = b" and xs: "xs = pre' @ m # post" by simp_all
      from lt Cons p have blt: "key b < key m" by simp
      have lt': "\<forall>p \<in> set (b # x # pre'). key p < key m"
        using False blt lt Cons by simp
      have "b # x # xs = (b # x # pre') @ m # post" using xs by simp
      with lt' le show ?thesis unfolding step by blast
    qed
  qed
qed

text \<open>
  Claim C2. For every directory with at least one DICOM series, the conversion selects
  a series of the enumeration whose file list is the longest, and among the series of
  that greatest length the first of the enumeration: every series enumerated before
  the chosen one has strictly fewer files, and none after it has more. The choice is a
  function of the enumeration and of the file lists.
\<close>

theorem best_series_first_max:
  assumes "series_ids en d \<noteq> []"
  shows "\<exists>pre best post.
           best_series en d = Inr best
           \<and> series_ids en d = pre @ best # post
           \<and> (\<forall>s \<in> set pre. length (series_files en d s) < length (series_files en d best))
           \<and> (\<forall>s \<in> set post. length (series_files en d s) \<le> length (series_files en d best))"
proof -
  from assms obtain x rest where ids: "series_ids en d = x # rest"
    by (cases "series_ids en d") auto
  define key where "key = (\<lambda>sid. length (series_files en d sid))"
  have best: "best_series en d = Inr (max_from key x rest)"
    by (simp add: best_series_def py_max_def ids key_def)
  from max_from_split [of x rest key] obtain pre post where
    "x # rest = pre @ max_from key x rest # post"
    "\<forall>p \<in> set pre. key p < key (max_from key x rest)"
    "\<forall>q \<in> set post. key q \<le> key (max_from key x rest)"
    by blast
  with best ids show ?thesis unfolding key_def by metis
qed

theorem best_series_first_max_witness:
  "series_ids env0 ''/scan'' \<noteq> []
   \<and> best_series env0 ''/scan'' = Inr ''1.2.2''
   \<and> (\<exists>pre best post.
           best_series env0 ''/scan'' = Inr best
           \<and> series_ids env0 ''/scan'' = pre @ best # post
           \<and> (\<forall>s \<in> set pre. length (series_files env0 ''/scan'' s)
                               < length (series_files env0 ''/scan'' best))
           \<and> (\<forall>s \<in> set post. length (series_files env0 ''/scan'' s)
                                \<le> length (series_files env0 ''/scan'' best)))"
proof -
  have h: "series_ids env0 ''/scan'' \<noteq> []" by (simp add: env0_def)
  have b: "best_series env0 ''/scan'' = Inr ''1.2.2''"
    by (simp add: best_series_def py_max_def env0_def)
  from best_series_first_max [OF h] h b show ?thesis by blast
qed

section \<open>The volume before segmentation\<close>

text \<open>
  A segmentation thread in flight implies a volume path: no step of the event loop
  breaks this.
\<close>

lemma set_remove_first: "set (remove_first P xs) \<subseteq> set xs"
  by (induction xs) auto

lemma step_keeps_seg_volume:
  assumes "step e s = Inr s'"
    and "(\<exists>w \<in> set (running s). is_seg w) \<longrightarrow> nifti_path s \<noteq> None"
  shows "(\<exists>w \<in> set (running s'). is_seg w) \<longrightarrow> nifti_path s' \<noteq> None"
proof (cases e)
  case (Deliver sg)
  show ?thesis
  proof (cases sg)
    case (Log t)
    with Deliver assms show ?thesis by (auto simp: log_def)
  next
    case (NiftiFinished nifti)
    have "set (remove_first is_dicom (running s)) \<subseteq> set (running s)"
      by (rule set_remove_first)
    with Deliver NiftiFinished assms show ?thesis
      by (cases nifti) (auto simp: on_nifti_done_def log_def split: if_splits)
  next
    case SegFinished
    have "set (remove_first is_seg (running s)) \<subseteq> set (running s)"
      by (rule set_remove_first)
    with Deliver SegFinished assms show ?thesis
      by (auto simp: on_finished_def log_def split: if_splits)
  qed
next
  case ClickRun
  with assms show ?thesis
    by (auto simp: run_segmentation_def log_def warning_def start_def Let_def
             split: if_splits option.splits)
next
  case ClickConvert
  with assms show ?thesis
    by (auto simp: convert_dicom_def log_def warning_def start_def Let_def split: if_splits)
qed (use assms in \<open>auto simp: select_dicom_def select_output_def on_method_changed_def log_def Let_def
       split: if_splits\<close>)

lemma exec_keeps_seg_volume:
  assumes "exec es s = Inr r"
    and "(\<exists>w \<in> set (running s). is_seg w) \<longrightarrow> nifti_path s \<noteq> None"
  shows "(\<exists>w \<in> set (running r). is_seg w) \<longrightarrow> nifti_path r \<noteq> None"
  using assms
proof (induction es arbitrary: s)
  case Nil
  then show ?case by simp
next
  case (Cons e es)
  from Cons.prems(1) obtain s1 where s1: "step e s = Inr s1" and rest: "exec es s1 = Inr r"
    by (auto split: sum.splits)
  from step_keeps_seg_volume [OF s1 Cons.prems(2)] Cons.IH [OF rest] show ?case by blast
qed

lemma init_running: "running init = []"
  by (simp add: init_def on_method_changed_def Let_def)

text \<open>
  Claim C1. A segmentation request while \<open>nifti_path\<close> is unset only shows the
  warning dialog "Missing NIfTI": the state is otherwise unchanged, so no worker is
  created or started, and since only a segmentation worker launches an executable,
  none is launched. A click on the run button that starts a thread happens in a
  state with \<open>nifti_path\<close> set, and in every state the event loop reaches from the
  initial one, a segmentation thread in flight implies that \<open>nifti_path\<close> is set.
\<close>

theorem segmentation_needs_volume:
  "(nifti_path s = None \<longrightarrow>
      run_segmentation s =
        Inr (s\<lparr>dialogs := dialogs s @ [(''Missing NIfTI'', ''Run DICOM '' @ arrow @ '' NIfTI first'')]\<rparr>))
   \<and> (step ClickRun r = Inr r' \<and> running r' \<noteq> running r \<longrightarrow> nifti_path r \<noteq> None)
   \<and> (exec es init = Inr q \<and> (\<exists>w \<in> set (running q). is_seg w) \<longrightarrow> nifti_path q \<noteq> None)"
proof (intro conjI impI)
  assume "nifti_path s = None"
  then show "run_segmentation s =
        Inr (s\<lparr>dialogs := dialogs s @ [(''Missing NIfTI'', ''Run DICOM '' @ arrow @ '' NIfTI first'')]\<rparr>)"
    by (simp add: run_segmentation_def warning_def)
next
  assume a: "step ClickRun r = Inr r' \<and> running r' \<noteq> running r"
  show "nifti_path r \<noteq> None"
  proof
    assume "nifti_path r = None"
    with a show False by (auto simp: run_segmentation_def warning_def split: if_splits)
  qed
next
  assume a: "exec es init = Inr q \<and> (\<exists>w \<in> set (running q). is_seg w)"
  then have "exec es init = Inr q" by simp
  from exec_keeps_seg_volume [OF this] init_running a show "nifti_path q \<noteq> None" by simp
qed

theorem segmentation_needs_volume_witness:
  "nifti_path init = None
   \<and> run_segmentation init =
       Inr (init\<lparr>dialogs := dialogs init
                 @ [(''Missing NIfTI'', ''Run DICOM '' @ arrow @ '' NIfTI first'')]\<rparr>)
   \<and> step ClickRun ui_total = Inr (projr (step ClickRun ui_total))
   \<and> running (projr (step ClickRun ui_total)) \<noteq> running ui_total
   \<and> nifti_path ui_total \<noteq> None
   \<and> exec (evs_total @ [ClickRun]) init = Inr (projr (step ClickRun ui_total))
   \<and> (\<exists>w \<in> set (running (projr (step ClickRun ui_total))). is_seg w)
   \<and> nifti_path (projr (step ClickRun ui_total)) \<noteq> None"
proof -
  have h1: "nifti_path init = None" by code_simp
  have h2: "step ClickRun ui_total = Inr (projr (step ClickRun ui_total))
            \<and> running (projr (step ClickRun ui_total)) \<noteq> running ui_total"
    by code_simp
  have h3: "exec (evs_total @ [ClickRun]) init = Inr (projr (step ClickRun ui_total))
            \<and> (\<exists>w \<in> set (running (projr (step ClickRun ui_total))). is_seg w)"
    by code_simp
  from segmentation_needs_volume
         [of init ui_total "projr (step ClickRun ui_total)" "evs_total @ [ClickRun]"
             "projr (step ClickRun ui_total)"]
       h1 h2 h3
  show ?thesis by blast
qed

section \<open>Conversion without a series\<close>

text \<open>Creating directories neither changes the trace nor the files.\<close>

lemma os_mkdir_keeps:
  "os_mkdir p w = Inr w' \<Longrightarrow> trace w' = trace w \<and> files w' = files w"
  by (auto simp: os_mkdir_def split: if_splits)

lemma mkdir_exist_ok_keeps:
  "mkdir_exist_ok p w = Inr w' \<Longrightarrow> trace w' = trace w \<and> files w' = files w"
  by (auto simp: mkdir_exist_ok_def split: sum.splits if_splits dest: os_mkdir_keeps)

lemma mkdir_parents_rev_keeps:
  "mkdir_parents_rev a rs w = Inr w' \<Longrightarrow> trace w' = trace w \<and> files w' = files w"
proof (induction rs arbitrary: w w')
  case Nil
  then show ?case by (simp add: mkdir_exist_ok_keeps)
next
  case (Cons x rs)
  let ?p = "\<lparr>anchor = a, segs = rev (x # rs)\<rparr>"
  show ?case
  proof (cases "os_mkdir ?p w")
    case (Inr w1)
    with Cons.prems have "w' = w1" by (simp add: Let_def)
    with Inr show ?thesis by (simp add: os_mkdir_keeps)
  next
    case (Inl e)
    show ?thesis
    proof (cases "is_FileNotFound e")
      case True
      with Inl Cons.prems obtain w1 where
        up: "mkdir_parents_rev a rs w = Inr w1" and self: "mkdir_exist_ok ?p w1 = Inr w'"
        by (auto simp: Let_def split: sum.splits)
      from Cons.IH [OF up] mkdir_exist_ok_keeps [OF self] show ?thesis by simp
    next
      case False
      with Inl Cons.prems have "w' = w" by (auto simp: Let_def split: if_splits)
      then show ?thesis by simp
    qed
  qed
qed

lemma mkdir_parents_keeps:
  "mkdir_parents p w = Inr w' \<Longrightarrow> trace w' = trace w \<and> files w' = files w"
  unfolding mkdir_parents_def by (rule mkdir_parents_rev_keeps)








section \<open>The process runner\<close>

text \<open>The loop over the output appends one log emission per line, in order.\<close>

lemma stream_lines_eq:
  "stream_lines ls w = w\<lparr>trace := trace w @ map (\<lambda>l. Emit (Log (rstrip l))) ls\<rparr>"
  by (induction ls arbitrary: w) (simp_all add: emit_def act_def)

lemma signals_append: "signals (xs @ ys) = signals xs @ signals ys"
  by (induction xs rule: signals.induct) simp_all

lemma signals_map_Emit: "signals (map (\<lambda>l. Emit (f l)) ls) = map f ls"
  by (induction ls) simp_all

text \<open>
  Claim C4, as amended. When the process exits with a code other than 0 after printing
  N lines, the runner has emitted exactly N log lines, each line stripped of trailing
  whitespace, in the order printed, and only then raises: the exception is
  \<open>RuntimeError\<close> with the fixed text "Segmentation failed", whatever the command.
\<close>

theorem failed_process_logs_then_raises:
  assumes "popen en cmd = Inr (lines, rc)" and "rc \<noteq> 0"
  shows "run_cmd en cmd w =
           (Inl (Exception RuntimeError ''Segmentation failed''),
            w\<lparr>trace := trace w @ PopenA cmd # map (\<lambda>l. Emit (Log (rstrip l))) lines\<rparr>)
     \<and> signals (drop (length (trace w)) (trace (snd (run_cmd en cmd w))))
         = map (\<lambda>l. Log (rstrip l)) lines
     \<and> length (signals (drop (length (trace w)) (trace (snd (run_cmd en cmd w)))))
         = length lines"
proof -
  have run: "run_cmd en cmd w =
           (Inl (Exception RuntimeError ''Segmentation failed''),
            w\<lparr>trace := trace w @ PopenA cmd # map (\<lambda>l. Emit (Log (rstrip l))) lines\<rparr>)"
    using assms by (simp add: run_cmd_def Let_def stream_lines_eq act_def)
  show ?thesis unfolding run by (simp add: signals_map_Emit)
qed

theorem failed_process_logs_then_raises_witness:
  "popen env_fail (skellytour_cmd sw0)
     = Inr ([''loading '' @ [CHR 0x0A], ''predicting'' @ [CHR 0x0A],
             ''out of memory'' @ [CHR 0x0A]], 1)
   \<and> (1::int) \<noteq> 0
   \<and> fst (run_cmd env_fail (skellytour_cmd sw0) world0)
       = Inl (Exception RuntimeError ''Segmentation failed'')
   \<and> trace (snd (run_cmd env_fail (skellytour_cmd sw0) world0))
       = [PopenA (skellytour_cmd sw0), Emit (Log ''loading''), Emit (Log ''predicting''),
          Emit (Log ''out of memory'')]"
proof -
  have h: "popen env_fail (skellytour_cmd sw0)
     = Inr ([''loading '' @ [CHR 0x0A], ''predicting'' @ [CHR 0x0A],
             ''out of memory'' @ [CHR 0x0A]], 1)"
    by (simp add: env_fail_def)
  have n: "(1::int) \<noteq> 0" by simp
  have r: "map (\<lambda>l. Emit (Log (rstrip l)))
             [''loading '' @ [CHR 0x0A], ''predicting'' @ [CHR 0x0A], ''out of memory'' @ [CHR 0x0A]]
           = [Emit (Log ''loading''), Emit (Log ''predicting''), Emit (Log ''out of memory'')]"
    by code_simp
  have t: "trace world0 = []" by (simp add: world0_def)
  from failed_process_logs_then_raises [OF h n, of world0] h r t show ?thesis by simp
qed

text \<open>
  Claim C4 as stated fails in one point: the failure does not carry the command name.
  The runs of \<open>skellytour\<close> and of \<open>TotalSegmentator\<close> fail with the same exception,
  whose text does not contain the name of the executable.
\<close>

theorem failure_without_command_name:
  "fst (run_cmd env_fail (skellytour_cmd sw0) world0)
     = Inl (Exception RuntimeError ''Segmentation failed'')
   \<and> hd (skellytour_cmd sw0) = ''skellytour''
   \<and> \<not> sublist ''skellytour'' (str_exc (Exception RuntimeError ''Segmentation failed''))
   \<and> hd (totalsegmentator_cmd sw0) = ''TotalSegmentator''
   \<and> fst (run_cmd env_fail (totalsegmentator_cmd sw0) world0)
       = fst (run_cmd env_fail (skellytour_cmd sw0) world0)"
  by code_simp

section \<open>Validation of the task\<close>

text \<open>
  Claim C5, at a failing input. After a conversion with every box left at its first
  item, the method is Skellytour, the task box is disabled and shows the group header
  "--- CT (default) ---", which cannot be changed while the box is disabled. A click on
  the run button then only shows the dialog "Invalid Task": the check of the task
  field is made for Skellytour as well, and no worker is started.
\<close>

theorem skellytour_blocked_by_placeholder_task:
  "exec evs_converted init = Inr ui_converted
   \<and> method_box ui_converted = ''Skellytour''
   \<and> ts_task_box ui_converted = ''--- CT (default) ---''
   \<and> \<not> ts_task_box_enabled ui_converted
   \<and> nifti_path ui_converted = Some (Path ''/out/ct.nii.gz'')
   \<and> run_btn_enabled ui_converted
   \<and> step ClickRun ui_converted =
       Inr (ui_converted\<lparr>dialogs := dialogs ui_converted
              @ [(''Invalid Task'', ''Select a valid TotalSegmentator task'')]\<rparr>)
   \<and> running (projr (step ClickRun ui_converted)) = []
   \<and> step (ChooseTask ''total'') ui_converted = Inr ui_converted"
  by code_simp

text \<open>No item of the task box that ends with \<open>_mr\<close> is a group header.\<close>

lemma mr_items_not_headers:
  "t \<in> set ts_task_items \<Longrightarrow> suffix ''_mr'' t \<Longrightarrow> \<not> prefix ''---'' t"
proof -
  have "list_all (\<lambda>t. suffix ''_mr'' t \<longrightarrow> \<not> prefix ''---'' t) ts_task_items"
    by code_simp
  then show "t \<in> set ts_task_items \<Longrightarrow> suffix ''_mr'' t \<Longrightarrow> \<not> prefix ''---'' t"
    by (simp add: list_all_iff)
qed

section \<open>Completion of the workers\<close>

text \<open>
  Inside \<open>try\<close>, the segmentation worker emits log lines only, whichever method runs
  and however it ends.
\<close>

lemma run_cmd_logs:
  "\<exists>logs. trace (snd (run_cmd en cmd w)) = trace w @ PopenA cmd # map (\<lambda>l. Emit (Log l)) logs"
proof (cases "popen en cmd")
  case (Inl e)
  then have "trace (snd (run_cmd en cmd w)) = trace w @ PopenA cmd # map (\<lambda>l. Emit (Log l)) []"
    by (simp add: run_cmd_def Let_def act_def)
  then show ?thesis by blast
next
  case (Inr r)
  obtain ls rc where r: "r = (ls, rc)" by (cases r)
  with Inr have "trace (snd (run_cmd en cmd w))
                 = trace w @ PopenA cmd # map (\<lambda>l. Emit (Log l)) (map rstrip ls)"
    by (simp add: run_cmd_def Let_def act_def stream_lines_eq comp_def)
  then show ?thesis by blast
qed

lemma seg_body_logs:
  "\<exists>new logs. trace (snd (seg_body en self w)) = trace w @ new \<and> signals new = map Log logs"
proof (cases "sw_method self = ''Skellytour''")
  case True
  let ?w1 = "emit (Log ''Running Skellytour...'') w"
  from run_cmd_logs [of en "skellytour_cmd self" ?w1] obtain logs where
    "trace (snd (run_cmd en (skellytour_cmd self) ?w1))
       = trace ?w1 @ PopenA (skellytour_cmd self) # map (\<lambda>l. Emit (Log l)) logs" by blast
  with True have
    "trace (snd (seg_body en self w))
       = trace w @ (Emit (Log ''Running Skellytour...'') # PopenA (skellytour_cmd self)
                     # map (\<lambda>l. Emit (Log l)) logs)
     \<and> signals (Emit (Log ''Running Skellytour...'') # PopenA (skellytour_cmd self)
                     # map (\<lambda>l. Emit (Log l)) logs)
       = map Log (''Running Skellytour...'' # logs)"
    by (simp add: seg_body_def run_skellytour_def Let_def emit_def act_def signals_map_Emit)
  then show ?thesis by blast
next
  case False
  let ?m = "''Running TotalSegmentator (task: '' @ sw_ts_task self @ '')''"
  let ?w2 = "act (MkdirA (ts_out_dir self)) (emit (Log ?m) w)"
  have t2: "trace ?w2 = trace w @ [Emit (Log ?m), MkdirA (ts_out_dir self)]"
    by (simp add: emit_def act_def)
  show ?thesis
  proof (cases "mkdir_exist_ok (ts_out_dir self) ?w2")
    case (Inl e)
    with False t2 have
      "trace (snd (seg_body en self w)) = trace w @ [Emit (Log ?m), MkdirA (ts_out_dir self)]
       \<and> signals [Emit (Log ?m), MkdirA (ts_out_dir self)] = map Log [?m]"
      by (simp add: seg_body_def run_totalsegmentator_def Let_def)
    then show ?thesis by blast
  next
    case (Inr w3)
    from mkdir_exist_ok_keeps [OF Inr] t2
    have t3: "trace w3 = trace w @ [Emit (Log ?m), MkdirA (ts_out_dir self)]" by simp
    from run_cmd_logs [of en "totalsegmentator_cmd self" w3] obtain logs where
      "trace (snd (run_cmd en (totalsegmentator_cmd self) w3))
         = trace w3 @ PopenA (totalsegmentator_cmd self) # map (\<lambda>l. Emit (Log l)) logs"
      by blast
    with False Inr t3 have
      "trace (snd (seg_body en self w))
         = trace w @ (Emit (Log ?m) # MkdirA (ts_out_dir self)
                       # PopenA (totalsegmentator_cmd self) # map (\<lambda>l. Emit (Log l)) logs)
       \<and> signals (Emit (Log ?m) # MkdirA (ts_out_dir self)
                       # PopenA (totalsegmentator_cmd self) # map (\<lambda>l. Emit (Log l)) logs)
         = map Log (?m # logs)"
      by (simp add: seg_body_def run_totalsegmentator_def Let_def signals_map_Emit)
    then show ?thesis by blast
  qed
qed

lemma count_no_finished: "count_list (map Log logs) SegFinished = 0"
  by (induction logs) simp_all

text \<open>
  Claim C10. Every run of the segmentation worker, whether its body returns or
  raises, emits log lines and then \<open>finished\<close>, exactly once and last. The signal has
  no argument, so the handler connected to it does the same after a failed run as
  after a successful one: it enables the run button and logs "Done.".
\<close>

theorem seg_finished_once:
  "(\<exists>logs. signals (drop (length (trace w)) (trace (seg_run en self w)))
            = map Log logs @ [SegFinished])
   \<and> count_list (signals (drop (length (trace w)) (trace (seg_run en self w)))) SegFinished = 1
   \<and> deliver SegFinished s = on_finished s
   \<and> on_finished s =
       s\<lparr>run_btn_enabled := True,
         log_box := log_box s @ [[CHR 0x0A] @ ''Done.'' @ [CHR 0x0A]]\<rparr>"
proof -
  from seg_body_logs [of en self w] obtain new logs where
    b: "trace (snd (seg_body en self w)) = trace w @ new" and l: "signals new = map Log logs"
    by blast
  obtain r w' where rw: "seg_body en self w = (r, w')" by (cases "seg_body en self w")
  with b have w': "trace w' = trace w @ new" by simp
  have "\<exists>logs'. signals (drop (length (trace w)) (trace (seg_run en self w)))
            = map Log logs' @ [SegFinished]"
  proof (cases r)
    case (Inr u)
    with rw w' l have "signals (drop (length (trace w)) (trace (seg_run en self w)))
            = map Log logs @ [SegFinished]"
      by (simp add: seg_run_def emit_def act_def signals_append)
    then show ?thesis by blast
  next
    case (Inl e)
    with rw w' l have "signals (drop (length (trace w)) (trace (seg_run en self w)))
            = map Log (logs @ [''ERROR: '' @ str_exc e]) @ [SegFinished]"
      by (simp add: seg_run_def emit_def act_def signals_append)
    then show ?thesis by blast
  qed
  then obtain logs' where s: "signals (drop (length (trace w)) (trace (seg_run en self w)))
            = map Log logs' @ [SegFinished]" by blast
  have c: "count_list (signals (drop (length (trace w)) (trace (seg_run en self w)))) SegFinished = 1"
    unfolding s by (simp add: count_no_finished)
  have o: "on_finished s =
       s\<lparr>run_btn_enabled := True,
         log_box := log_box s @ [[CHR 0x0A] @ ''Done.'' @ [CHR 0x0A]]\<rparr>"
    by (simp add: on_finished_def log_def)
  from s c o show ?thesis by auto
qed

text \<open>
  When the body of the conversion worker raises, what it has emitted so far are log
  lines; delivering log lines only extends the log box.
\<close>

lemma dicom_body_raise_logs:
  assumes "fst (dicom_body en self w) = Inl e"
  shows "\<exists>new logs. trace (snd (dicom_body en self w)) = trace w @ new
                    \<and> signals new = map Log logs"
proof -
  let ?od = "dw_output_dir self"
  let ?w1 = "act (MkdirA ?od) w"
  let ?d = "str_path (dw_dicom_dir self)"
  show ?thesis
  proof (cases "mkdir_parents ?od ?w1")
    case (Inl x)
    then have "trace (snd (dicom_body en self w)) = trace w @ [MkdirA ?od]
               \<and> signals [MkdirA ?od] = map Log []"
      by (simp add: dicom_body_def Let_def act_def)
    then show ?thesis by blast
  next
    case (Inr w2)
    from mkdir_parents_keeps [OF Inr] have t2: "trace w2 = trace w @ [MkdirA ?od]"
      by (simp add: act_def)
    let ?r = "''Reading DICOM folder...''"
    show ?thesis
    proof (cases "best_series en ?d")
      case (Inl x)
      with Inr t2 have "trace (snd (dicom_body en self w)) = trace w @ [MkdirA ?od, Emit (Log ?r)]
               \<and> signals [MkdirA ?od, Emit (Log ?r)] = map Log [?r]"
        by (simp add: dicom_body_def Let_def act_def emit_def)
      then show ?thesis by blast
    next
      case best: (Inr sid)
      let ?fs = "series_files en ?d sid"
      show ?thesis
      proof (cases "execute en ?fs")
        case (Inl x)
        with Inr best t2 have
          "trace (snd (dicom_body en self w)) = trace w @ [MkdirA ?od, Emit (Log ?r), ExecuteA ?fs]
               \<and> signals [MkdirA ?od, Emit (Log ?r), ExecuteA ?fs] = map Log [?r]"
          by (simp add: dicom_body_def Let_def act_def emit_def)
        then show ?thesis by blast
      next
        case ex: (Inr img)
        let ?np = "joinpath ?od ''ct.nii.gz''"
        show ?thesis
        proof (cases "write_image en img (str_path ?np)")
          case None
          with Inr best ex have "fst (dicom_body en self w) = Inr ()"
            by (simp add: dicom_body_def finished_emit_def Let_def)
          with assms show ?thesis by simp
        next
          case (Some x)
          with Inr best ex t2 have
            "trace (snd (dicom_body en self w))
               = trace w @ [MkdirA ?od, Emit (Log ?r), ExecuteA ?fs, WriteImageA ?np]
             \<and> signals [MkdirA ?od, Emit (Log ?r), ExecuteA ?fs, WriteImageA ?np] = map Log [?r]"
            by (simp add: dicom_body_def Let_def act_def emit_def)
          then show ?thesis by blast
        qed
      qed
    qed
  qed
qed

lemma exec_deliver_logs:
  "exec (map Deliver (map Log logs)) s = Inr (s\<lparr>log_box := log_box s @ logs\<rparr>)"
  by (induction logs arbitrary: s) (simp_all add: log_def)

text \<open>
  Claim C9, at the failing inputs. When the body of a conversion run raises (as it does
  when reading the series or writing the volume fails), the handler logs the line
  "ERROR: " with the text of the exception, and its call of \<open>finished.emit\<close> with \<open>None\<close>
  raises \<open>TypeError\<close>: the run ends with that exception, not caught by anything, and has
  sent log lines only, no completion signal. Delivered to the widget, these signals only
  extend the log box: \<open>on_nifti_done\<close> does not run, and a convert button that was
  disabled when the conversion started stays disabled, so that a click on it does
  nothing and the conversion cannot be tried again.
\<close>

theorem conversion_error_escapes:
  assumes "fst (dicom_body en self w) = Inl e"
  shows "\<exists>logs x.
           fst (dicom_run en self w) = Inl x \<and> type_exc x = TypeError
         \<and> signals (drop (length (trace w)) (trace (snd (dicom_run en self w))))
             = map Log (logs @ [''ERROR: '' @ str_exc e])
         \<and> exec (map Deliver
                   (signals (drop (length (trace w)) (trace (snd (dicom_run en self w)))))) s
             = Inr (s\<lparr>log_box := log_box s @ logs @ [''ERROR: '' @ str_exc e]\<rparr>)
         \<and> (\<not> btn_convert_enabled s \<longrightarrow>
              step ClickConvert (s\<lparr>log_box := log_box s @ logs @ [''ERROR: '' @ str_exc e]\<rparr>)
                = Inr (s\<lparr>log_box := log_box s @ logs @ [''ERROR: '' @ str_exc e]\<rparr>))"
proof -
  from dicom_body_raise_logs [OF assms] obtain new logs where
    b: "trace (snd (dicom_body en self w)) = trace w @ new" and l: "signals new = map Log logs"
    by blast
  obtain r w' where rw: "dicom_body en self w = (r, w')" by (cases "dicom_body en self w")
  with assms b have r: "r = Inl e" and w': "trace w' = trace w @ new" by simp_all
  let ?x = "Exception TypeError
              (''DicomToNiftiWorker.finished[Path].emit(): argument 1 has unexpected type ''
               @ [CHR 0x27] @ ''NoneType'' @ [CHR 0x27])"
  from rw r have run: "dicom_run en self w = (Inl ?x, emit (Log (''ERROR: '' @ str_exc e)) w')"
    by (simp add: dicom_run_def finished_emit_def Let_def)
  from run have x: "fst (dicom_run en self w) = Inl ?x" "type_exc ?x = TypeError" by simp_all
  from run w' l have s: "signals (drop (length (trace w)) (trace (snd (dicom_run en self w))))
             = map Log (logs @ [''ERROR: '' @ str_exc e])"
    by (simp add: emit_def act_def signals_append)
  have d: "exec (map Deliver (map Log (logs @ [''ERROR: '' @ str_exc e]))) s
             = Inr (s\<lparr>log_box := log_box s @ logs @ [''ERROR: '' @ str_exc e]\<rparr>)"
    by (simp only: exec_deliver_logs append_assoc)
  have c: "\<not> btn_convert_enabled s \<longrightarrow>
              step ClickConvert (s\<lparr>log_box := log_box s @ logs @ [''ERROR: '' @ str_exc e]\<rparr>)
                = Inr (s\<lparr>log_box := log_box s @ logs @ [''ERROR: '' @ str_exc e]\<rparr>)"
    by simp
  from x s d c show ?thesis by (metis (no_types, lifting))
qed

theorem conversion_error_escapes_witness:
  "fst (dicom_body env_bad dw0 world0) = Inl (Exception LibraryError ''cannot read series'')
   \<and> running ui_converting = [DicomW dw0]
   \<and> \<not> btn_convert_enabled ui_converting
   \<and> nifti_path ui_converting = None
   \<and> type_exc (projl (fst (dicom_run env_bad dw0 world0))) = TypeError
   \<and> signals (trace (snd (dicom_run env_bad dw0 world0)))
       = [Log ''Reading DICOM folder...'', Log ''ERROR: cannot read series'']
   \<and> exec (map Deliver (signals (trace (snd (dicom_run env_bad dw0 world0))))) ui_converting
       = Inr (ui_converting\<lparr>log_box := log_box ui_converting
                @ [''Reading DICOM folder...'', ''ERROR: cannot read series'']\<rparr>)
   \<and> step ClickConvert
       (ui_converting\<lparr>log_box := log_box ui_converting
          @ [''Reading DICOM folder...'', ''ERROR: cannot read series'']\<rparr>)
       = Inr (ui_converting\<lparr>log_box := log_box ui_converting
                @ [''Reading DICOM folder...'', ''ERROR: cannot read series'']\<rparr>)
   \<and> (\<exists>logs x. fst (dicom_run env_bad dw0 world0) = Inl x \<and> type_exc x = TypeError
         \<and> signals (drop (length (trace world0)) (trace (snd (dicom_run env_bad dw0 world0))))
             = map Log (logs @ [''ERROR: '' @ str_exc (Exception LibraryError ''cannot read series'')]))"
proof -
  have h: "fst (dicom_body env_bad dw0 world0) = Inl (Exception LibraryError ''cannot read series'')"
    by code_simp
  have u: "running ui_converting = [DicomW dw0]" "\<not> btn_convert_enabled ui_converting"
          "nifti_path ui_converting = None"
    by code_simp+
  have t: "type_exc (projl (fst (dicom_run env_bad dw0 world0))) = TypeError" by code_simp
  have g: "signals (trace (snd (dicom_run env_bad dw0 world0)))
       = [Log ''Reading DICOM folder...'', Log ''ERROR: cannot read series'']"
    by code_simp
  have e: "exec (map Deliver (signals (trace (snd (dicom_run env_bad dw0 world0))))) ui_converting
       = Inr (ui_converting\<lparr>log_box := log_box ui_converting
                @ [''Reading DICOM folder...'', ''ERROR: cannot read series'']\<rparr>)"
    unfolding g by (simp add: log_def)
  have c: "step ClickConvert
       (ui_converting\<lparr>log_box := log_box ui_converting
          @ [''Reading DICOM folder...'', ''ERROR: cannot read series'']\<rparr>)
       = Inr (ui_converting\<lparr>log_box := log_box ui_converting
                @ [''Reading DICOM folder...'', ''ERROR: cannot read series'']\<rparr>)"
    using u(2) by simp
  from conversion_error_escapes [OF h, of ui_converting] h u t g e c show ?thesis by blast
qed

section \<open>TotalSegmentator dispatch\<close>

lemma mkdir_exist_ok_dirs:
  "mkdir_exist_ok p w = Inr w' \<Longrightarrow>
     p \<in> set (dirs w') \<and> dirs w' = (if p \<in> set (dirs w) then dirs w else dirs w @ [p])"
  by (auto simp: mkdir_exist_ok_def os_mkdir_def split: sum.splits if_splits)

lemma mkdir_exist_ok_succeeds:
  assumes "segs p \<noteq> []" and "parent p \<in> set (dirs w)" and "parent p \<notin> set (files w)"
    and "p \<notin> set (files w)"
  shows "\<exists>w'. mkdir_exist_ok p w = Inr w'"
  using assms
  by (auto simp: mkdir_exist_ok_def os_mkdir_def os_error_def is_FileNotFound_def)

lemma run_cmd_shape:
  "\<exists>sigs. snd (run_cmd en cmd w) = w\<lparr>trace := trace w @ PopenA cmd # map Emit sigs\<rparr>"
proof (cases "popen en cmd")
  case (Inl e)
  then have "snd (run_cmd en cmd w) = w\<lparr>trace := trace w @ PopenA cmd # map Emit []\<rparr>"
    by (simp add: run_cmd_def Let_def act_def)
  then show ?thesis by blast
next
  case (Inr r)
  obtain ls rc where r: "r = (ls, rc)" by (cases r)
  with Inr have "snd (run_cmd en cmd w)
                 = w\<lparr>trace := trace w @ PopenA cmd # map Emit (map (\<lambda>l. Log (rstrip l)) ls)\<rparr>"
    by (simp add: run_cmd_def Let_def act_def stream_lines_eq comp_def)
  then show ?thesis by blast
qed

lemma ts_run_shape:
  assumes m: "sw_method self \<noteq> ''Skellytour''"
  shows "(mkdir_exist_ok (ts_out_dir self) w = Inl e \<longrightarrow>
            seg_run en self w =
              w\<lparr>trace := trace w
                 @ [Emit (Log (''Running TotalSegmentator (task: '' @ sw_ts_task self @ '')'')),
                    MkdirA (ts_out_dir self), Emit (Log (''ERROR: '' @ str_exc e)),
                    Emit SegFinished]\<rparr>)
       \<and> (mkdir_exist_ok (ts_out_dir self) w = Inr w3 \<longrightarrow>
            (\<exists>sigs. seg_run en self w =
              w3\<lparr>trace := trace w
                 @ Emit (Log (''Running TotalSegmentator (task: '' @ sw_ts_task self @ '')''))
                 # MkdirA (ts_out_dir self) # PopenA (totalsegmentator_cmd self)
                 # map Emit sigs\<rparr>))"
proof (intro conjI impI)
  let ?m = "''Running TotalSegmentator (task: '' @ sw_ts_task self @ '')''"
  let ?out = "ts_out_dir self"
  let ?w2 = "act (MkdirA ?out) (emit (Log ?m) w)"
  have w2: "?w2 = w\<lparr>trace := trace w @ [Emit (Log ?m), MkdirA ?out]\<rparr>"
    by (simp add: act_def emit_def)
  have mk: "mkdir_exist_ok ?out ?w2
              = map_sum id (\<lambda>x. x\<lparr>trace := trace w @ [Emit (Log ?m), MkdirA ?out]\<rparr>)
                  (mkdir_exist_ok ?out w)"
    unfolding w2 by (auto simp: mkdir_exist_ok_def os_mkdir_def split: sum.splits)
  {
    assume "mkdir_exist_ok ?out w = Inl e"
    with mk have "mkdir_exist_ok ?out ?w2 = Inl e" by simp
    with m show "seg_run en self w =
              w\<lparr>trace := trace w
                 @ [Emit (Log ?m), MkdirA ?out, Emit (Log (''ERROR: '' @ str_exc e)),
                    Emit SegFinished]\<rparr>"
      by (simp add: seg_run_def seg_body_def run_totalsegmentator_def Let_def w2 emit_def act_def)
  }
  {
    assume ok: "mkdir_exist_ok ?out w = Inr w3"
    let ?w3 = "w3\<lparr>trace := trace w @ [Emit (Log ?m), MkdirA ?out]\<rparr>"
    from ok mk have mk2: "mkdir_exist_ok ?out ?w2 = Inr ?w3" by simp
    let ?cmd = "totalsegmentator_cmd self"
    from run_cmd_shape [of en ?cmd ?w3] obtain sigs where
      sh: "snd (run_cmd en ?cmd ?w3) = ?w3\<lparr>trace := trace ?w3 @ PopenA ?cmd # map Emit sigs\<rparr>"
      by blast
    obtain r w4 where rc: "run_cmd en ?cmd ?w3 = (r, w4)" by (cases "run_cmd en ?cmd ?w3")
    with sh have w4: "w4 = ?w3\<lparr>trace := trace ?w3 @ PopenA ?cmd # map Emit sigs\<rparr>" by simp
    from m mk2 rc have body: "seg_body en self w = (r, w4)"
      by (simp add: seg_body_def run_totalsegmentator_def Let_def)
    show "\<exists>sigs. seg_run en self w =
              w3\<lparr>trace := trace w @ Emit (Log ?m) # MkdirA ?out # PopenA ?cmd # map Emit sigs\<rparr>"
    proof (cases r)
      case (Inr u)
      with body w4 have "seg_run en self w =
              w3\<lparr>trace := trace w @ Emit (Log ?m) # MkdirA ?out # PopenA ?cmd
                    # map Emit (sigs @ [SegFinished])\<rparr>"
        by (simp add: seg_run_def emit_def act_def)
      then show ?thesis by blast
    next
      case (Inl x)
      with body w4 have "seg_run en self w =
              w3\<lparr>trace := trace w @ Emit (Log ?m) # MkdirA ?out # PopenA ?cmd
                    # map Emit (sigs @ [Log (''ERROR: '' @ str_exc x), SegFinished])\<rparr>"
        by (simp add: seg_run_def emit_def act_def)
      then show ?thesis by blast
    qed
  }
qed

lemma split_sep_no_slash: "CHR ''/'' \<notin> set s \<Longrightarrow> split_sep s = [s]"
  by (induction s) auto

lemma join_sep_snoc: "xs \<noteq> [] \<Longrightarrow> join_sep (xs @ [x]) = join_sep xs @ ''/'' @ x"
  by (induction xs rule: join_sep.induct) simp_all

lemma ts_out_dir_str:
  assumes "CHR ''/'' \<notin> set (sw_ts_task self)" and "segs (sw_output_dir self) \<noteq> []"
  shows "str_path (ts_out_dir self)
           = str_path (sw_output_dir self) @ ''/segmentations_'' @ sw_ts_task self"
proof -
  have "CHR ''/'' \<notin> set (''segmentations_'' @ sw_ts_task self)" using assms(1) by simp
  then have "split_sep (''segmentations_'' @ sw_ts_task self) = [''segmentations_'' @ sw_ts_task self]"
    by (rule split_sep_no_slash)
  then have "rel_segs (''segmentations_'' @ sw_ts_task self) = [''segmentations_'' @ sw_ts_task self]"
    by (simp add: rel_segs_def)
  with assms(2) show ?thesis
    by (simp add: ts_out_dir_def joinpath_def str_path_def join_sep_snoc)
qed

text \<open>
  Claim C7. When the method of a segmentation worker is TotalSegmentator, the command it
  launches is \<^verbatim>\<open>TotalSegmentator -i v -o d/segmentations_t -ta t\<close>, where \<open>v\<close> is the volume
  path, \<open>d\<close> the output directory and \<open>t\<close> the task name. The only process the worker ever
  launches is this command, it is launched right after the request to create the directory
  \<open>d/segmentations_t\<close>, and whenever it is launched that directory exists. If the parent
  of the directory exists and no file is in the way, the launch does take place. For a task
  name without a slash and an output directory other than the root, the directory prints as
  the output directory, a slash, \<^verbatim>\<open>segmentations_\<close> and the task name.
\<close>

theorem totalsegmentator_dispatch:
  assumes m: "sw_method self = ''TotalSegmentator''"
  shows "totalsegmentator_cmd self
           = [''TotalSegmentator'',
              ''-i'', str_path (sw_nifti_path self),
              ''-o'', str_path (joinpath (sw_output_dir self)
                                  (''segmentations_'' @ sw_ts_task self)),
              ''-ta'', sw_ts_task self]
     \<and> (\<forall>c. PopenA c \<in> set (drop (length (trace w)) (trace (seg_run en self w))) \<longrightarrow>
            c = totalsegmentator_cmd self
            \<and> ts_out_dir self \<in> set (dirs (seg_run en self w))
            \<and> dirs (seg_run en self w)
                = (if ts_out_dir self \<in> set (dirs w) then dirs w
                   else dirs w @ [ts_out_dir self])
            \<and> (\<exists>sigs. drop (length (trace w)) (trace (seg_run en self w))
                  = Emit (Log (''Running TotalSegmentator (task: '' @ sw_ts_task self @ '')''))
                    # MkdirA (ts_out_dir self) # PopenA c # map Emit sigs))
     \<and> (segs (ts_out_dir self) \<noteq> [] \<and> parent (ts_out_dir self) \<in> set (dirs w)
          \<and> parent (ts_out_dir self) \<notin> set (files w) \<and> ts_out_dir self \<notin> set (files w) \<longrightarrow>
            PopenA (totalsegmentator_cmd self)
              \<in> set (drop (length (trace w)) (trace (seg_run en self w))))
     \<and> (CHR ''/'' \<notin> set (sw_ts_task self) \<and> segs (sw_output_dir self) \<noteq> [] \<longrightarrow>
            str_path (ts_out_dir self)
              = str_path (sw_output_dir self) @ ''/segmentations_'' @ sw_ts_task self)"
proof -
  from m have ns: "sw_method self \<noteq> ''Skellytour''" by simp
  let ?m = "''Running TotalSegmentator (task: '' @ sw_ts_task self @ '')''"
  let ?out = "ts_out_dir self"
  let ?cmd = "totalsegmentator_cmd self"
  let ?new = "drop (length (trace w)) (trace (seg_run en self w))"
  have cmd: "?cmd = [''TotalSegmentator'',
              ''-i'', str_path (sw_nifti_path self),
              ''-o'', str_path (joinpath (sw_output_dir self)
                                  (''segmentations_'' @ sw_ts_task self)),
              ''-ta'', sw_ts_task self]"
    by (simp add: totalsegmentator_cmd_def ts_out_dir_def)
  have launch: "\<forall>c. PopenA c \<in> set ?new \<longrightarrow>
            c = ?cmd \<and> ?out \<in> set (dirs (seg_run en self w))
            \<and> dirs (seg_run en self w) = (if ?out \<in> set (dirs w) then dirs w else dirs w @ [?out])
            \<and> (\<exists>sigs. ?new = Emit (Log ?m) # MkdirA ?out # PopenA c # map Emit sigs)"
  proof (intro allI impI)
    fix c
    assume p: "PopenA c \<in> set ?new"
    show "c = ?cmd \<and> ?out \<in> set (dirs (seg_run en self w))
            \<and> dirs (seg_run en self w) = (if ?out \<in> set (dirs w) then dirs w else dirs w @ [?out])
            \<and> (\<exists>sigs. ?new = Emit (Log ?m) # MkdirA ?out # PopenA c # map Emit sigs)"
    proof (cases "mkdir_exist_ok ?out w")
      case (Inl e)
      with ts_run_shape [OF ns, where w=w and e=e and en=en] have
        "?new = [Emit (Log ?m), MkdirA ?out, Emit (Log (''ERROR: '' @ str_exc e)), Emit SegFinished]"
        by simp
      with p show ?thesis by simp
    next
      case (Inr w3)
      with ts_run_shape [OF ns, where w=w and ?w3.0=w3 and en=en] obtain sigs where
        run: "seg_run en self w =
                w3\<lparr>trace := trace w @ Emit (Log ?m) # MkdirA ?out # PopenA ?cmd # map Emit sigs\<rparr>"
        by blast
      then have new: "?new = Emit (Log ?m) # MkdirA ?out # PopenA ?cmd # map Emit sigs" by simp
      with p have c: "c = ?cmd" by auto
      from mkdir_exist_ok_dirs [OF Inr] run have
        "?out \<in> set (dirs (seg_run en self w))"
        "dirs (seg_run en self w) = (if ?out \<in> set (dirs w) then dirs w else dirs w @ [?out])"
        by simp_all
      with c new show ?thesis by blast
    qed
  qed
  have enough: "segs ?out \<noteq> [] \<and> parent ?out \<in> set (dirs w)
          \<and> parent ?out \<notin> set (files w) \<and> ?out \<notin> set (files w) \<longrightarrow> PopenA ?cmd \<in> set ?new"
  proof
    assume a: "segs ?out \<noteq> [] \<and> parent ?out \<in> set (dirs w)
          \<and> parent ?out \<notin> set (files w) \<and> ?out \<notin> set (files w)"
    then obtain w3 where ok: "mkdir_exist_ok ?out w = Inr w3"
      using mkdir_exist_ok_succeeds [of ?out w] by blast
    with ts_run_shape [OF ns, where w=w and ?w3.0=w3 and en=en] obtain sigs where
      "seg_run en self w =
                w3\<lparr>trace := trace w @ Emit (Log ?m) # MkdirA ?out # PopenA ?cmd # map Emit sigs\<rparr>"
      by blast
    then show "PopenA ?cmd \<in> set ?new" by simp
  qed
  have str: "CHR ''/'' \<notin> set (sw_ts_task self) \<and> segs (sw_output_dir self) \<noteq> [] \<longrightarrow>
            str_path ?out = str_path (sw_output_dir self) @ ''/segmentations_'' @ sw_ts_task self"
    using ts_out_dir_str by blast
  from cmd launch enough str show ?thesis by blast
qed

theorem totalsegmentator_dispatch_witness:
  "sw_method sw_total = ''TotalSegmentator''
   \<and> totalsegmentator_cmd sw_total
       = [''TotalSegmentator'', ''-i'', ''/out/ct.nii.gz'', ''-o'', ''/out/segmentations_total'',
          ''-ta'', ''total'']
   \<and> segs (ts_out_dir sw_total) \<noteq> []
   \<and> parent (ts_out_dir sw_total) \<in> set (dirs world_out)
   \<and> parent (ts_out_dir sw_total) \<notin> set (files world_out)
   \<and> ts_out_dir sw_total \<notin> set (files world_out)
   \<and> PopenA (totalsegmentator_cmd sw_total)
       \<in> set (drop (length (trace world_out)) (trace (seg_run env0 sw_total world_out)))
   \<and> ts_out_dir sw_total \<in> set (dirs (seg_run env0 sw_total world_out))
   \<and> dirs (seg_run env0 sw_total world_out)
       = [Path ''/'', Path ''/out'', Path ''/out/segmentations_total'']
   \<and> CHR ''/'' \<notin> set (sw_ts_task sw_total)
   \<and> segs (sw_output_dir sw_total) \<noteq> []
   \<and> str_path (ts_out_dir sw_total)
       = str_path (sw_output_dir sw_total) @ ''/segmentations_'' @ sw_ts_task sw_total"
proof -
  have h: "sw_method sw_total = ''TotalSegmentator''" by code_simp
  have c: "totalsegmentator_cmd sw_total
       = [''TotalSegmentator'', ''-i'', ''/out/ct.nii.gz'', ''-o'', ''/out/segmentations_total'',
          ''-ta'', ''total'']" by code_simp
  have a: "segs (ts_out_dir sw_total) \<noteq> []"
          "parent (ts_out_dir sw_total) \<in> set (dirs world_out)"
          "parent (ts_out_dir sw_total) \<notin> set (files world_out)"
          "ts_out_dir sw_total \<notin> set (files world_out)"
          "CHR ''/'' \<notin> set (sw_ts_task sw_total)"
          "segs (sw_output_dir sw_total) \<noteq> []"
    by code_simp+
  have d: "dirs (seg_run env0 sw_total world_out)
       = [Path ''/'', Path ''/out'', Path ''/out/segmentations_total'']" by code_simp
  from totalsegmentator_dispatch [OF h, of world_out env0] h c a d show ?thesis by blast
qed

section \<open>Workers in flight\<close>

lemma dicom_not_seg: "is_dicom wk \<Longrightarrow> \<not> is_seg wk"
  by (cases wk) simp_all

lemma filter_remove_first_other:
  "(\<And>x. P x \<Longrightarrow> \<not> Q x) \<Longrightarrow> filter Q (remove_first P xs) = filter Q xs"
  by (induction xs) auto

lemma filter_remove_first_same:
  "\<exists>x \<in> set xs. P x \<Longrightarrow> Suc (length (filter P (remove_first P xs))) = length (filter P xs)"
  by (induction xs) auto

lemma step_keeps_stage_guard:
  assumes st: "step e s = Inr s'"
    and d: "length (filter is_dicom (running s)) \<le> 1"
    and g: "length (filter is_seg (running s)) \<le> 1"
    and bd: "btn_convert_enabled s \<Longrightarrow> filter is_dicom (running s) = []"
    and bg: "run_btn_enabled s \<Longrightarrow> filter is_seg (running s) = []"
  shows "length (filter is_dicom (running s')) \<le> 1
       \<and> length (filter is_seg (running s')) \<le> 1
       \<and> (btn_convert_enabled s' \<longrightarrow> filter is_dicom (running s') = [])
       \<and> (run_btn_enabled s' \<longrightarrow> filter is_seg (running s') = [])"
proof (cases e)
  case (SelectDicom p)
  with st d g bd bg show ?thesis by (auto simp: select_dicom_def log_def)
next
  case (SelectOutput p)
  with st d g bd bg show ?thesis by (auto simp: select_output_def log_def)
next
  case ClickConvert
  show ?thesis
  proof (cases "btn_convert_enabled s")
    case False
    with ClickConvert st d g bd bg show ?thesis by auto
  next
    case True
    with bd have "filter is_dicom (running s) = []" by simp
    with True ClickConvert st g bg show ?thesis
      by (auto simp: convert_dicom_def warning_def log_def start_def Let_def)
  qed
next
  case ClickRun
  show ?thesis
  proof (cases "run_btn_enabled s")
    case False
    with ClickRun st d g bd bg show ?thesis by auto
  next
    case True
    with bg have "filter is_seg (running s) = []" by simp
    with True ClickRun st d bd show ?thesis
      by (auto simp: run_segmentation_def warning_def log_def start_def Let_def
               split: option.splits if_splits)
  qed
next
  case (ChooseMethod m)
  with st d g bd bg show ?thesis by (auto simp: on_method_changed_def Let_def split: if_splits)
next
  case (ChooseModel m)
  with st d g bd bg show ?thesis by (auto split: if_splits)
next
  case (ChooseDevice m)
  with st d g bd bg show ?thesis by (auto split: if_splits)
next
  case (ChooseTask t)
  with st d g bd bg show ?thesis by (auto split: if_splits)
next
  case (Deliver sg)
  show ?thesis
  proof (cases sg)
    case (Log t)
    with Deliver st d g bd bg show ?thesis by (auto simp: log_def)
  next
    case (NiftiFinished nifti)
    show ?thesis
    proof (cases "\<exists>wk \<in> set (running s). is_dicom wk")
      case False
      with NiftiFinished Deliver st d g bd bg show ?thesis by auto
    next
      case True
      from filter_remove_first_same [OF True] d
      have "length (filter is_dicom (remove_first is_dicom (running s))) = 0" by arith
      then have none: "filter is_dicom (remove_first is_dicom (running s)) = []" by (rule length_0_conv [THEN iffD1])
      have same: "filter is_seg (remove_first is_dicom (running s)) = filter is_seg (running s)"
        by (rule filter_remove_first_other) (rule dicom_not_seg)
      from True NiftiFinished Deliver st have
        r: "running s' = remove_first is_dicom (running s)"
        and b: "run_btn_enabled s' = run_btn_enabled s"
        by (auto simp: on_nifti_done_def log_def Let_def split: option.splits)
      from r b none same g bg show ?thesis by simp
    qed
  next
    case SegFinished
    show ?thesis
    proof (cases "\<exists>wk \<in> set (running s). is_seg wk")
      case False
      with SegFinished Deliver st d g bd bg show ?thesis by auto
    next
      case True
      from filter_remove_first_same [OF True] g
      have "length (filter is_seg (remove_first is_seg (running s))) = 0" by arith
      then have none: "filter is_seg (remove_first is_seg (running s)) = []" by (rule length_0_conv [THEN iffD1])
      have same: "filter is_dicom (remove_first is_seg (running s)) = filter is_dicom (running s)"
        by (rule filter_remove_first_other) (auto dest: dicom_not_seg)
      from True SegFinished Deliver st have
        r: "running s' = remove_first is_seg (running s)"
        and b: "btn_convert_enabled s' = btn_convert_enabled s"
        by (auto simp: on_finished_def log_def)
      from r b none same d bd show ?thesis by simp
    qed
  qed
qed

lemma exec_keeps_stage_guard:
  "exec es s = Inr s' \<Longrightarrow>
   length (filter is_dicom (running s)) \<le> 1 \<Longrightarrow>
   length (filter is_seg (running s)) \<le> 1 \<Longrightarrow>
   (btn_convert_enabled s \<longrightarrow> filter is_dicom (running s) = []) \<Longrightarrow>
   (run_btn_enabled s \<longrightarrow> filter is_seg (running s) = []) \<Longrightarrow>
     length (filter is_dicom (running s')) \<le> 1
   \<and> length (filter is_seg (running s')) \<le> 1
   \<and> (btn_convert_enabled s' \<longrightarrow> filter is_dicom (running s') = [])
   \<and> (run_btn_enabled s' \<longrightarrow> filter is_seg (running s') = [])"
proof (induction es arbitrary: s)
  case Nil
  then show ?case by simp
next
  case (Cons e es)
  from Cons.prems(1) obtain s1 where st: "step e s = Inr s1" and ex: "exec es s1 = Inr s'"
    by (auto split: sum.splits)
  from step_keeps_stage_guard [OF st Cons.prems(2) Cons.prems(3)] Cons.prems(4,5)
  have "length (filter is_dicom (running s1)) \<le> 1
       \<and> length (filter is_seg (running s1)) \<le> 1
       \<and> (btn_convert_enabled s1 \<longrightarrow> filter is_dicom (running s1) = [])
       \<and> (run_btn_enabled s1 \<longrightarrow> filter is_seg (running s1) = [])" by blast
  with Cons.IH [OF ex] show ?case by blast
qed

text \<open>
  Claim C8, as amended. After any sequence of events from the initial state, at most one
  conversion worker and at most one segmentation worker are in flight, and a start request
  for a stage whose own worker is in flight is refused: the click leaves the widget as it
  is and starts no worker.
\<close>

theorem one_worker_per_stage:
  assumes "exec es init = Inr s"
  shows "length (filter is_dicom (running s)) \<le> 1
       \<and> length (filter is_seg (running s)) \<le> 1
       \<and> ((\<exists>wk \<in> set (running s). is_dicom wk) \<longrightarrow> step ClickConvert s = Inr s)
       \<and> ((\<exists>wk \<in> set (running s). is_seg wk) \<longrightarrow> step ClickRun s = Inr s)"
proof -
  have "running init = []" by (rule init_running)
  with exec_keeps_stage_guard [OF assms] have
    inv: "length (filter is_dicom (running s)) \<le> 1"
         "length (filter is_seg (running s)) \<le> 1"
         "btn_convert_enabled s \<longrightarrow> filter is_dicom (running s) = []"
         "run_btn_enabled s \<longrightarrow> filter is_seg (running s) = []"
    by simp_all
  have "step ClickConvert s = Inr s" if "\<exists>wk \<in> set (running s). is_dicom wk"
  proof -
    from that have "filter is_dicom (running s) \<noteq> []" by (auto simp: filter_empty_conv)
    with inv(3) show ?thesis by auto
  qed
  moreover have "step ClickRun s = Inr s" if "\<exists>wk \<in> set (running s). is_seg wk"
  proof -
    from that have "filter is_seg (running s) \<noteq> []" by (auto simp: filter_empty_conv)
    with inv(4) show ?thesis by auto
  qed
  ultimately show ?thesis using inv(1,2) by blast
qed

theorem one_worker_per_stage_witness:
  "exec evs_both init = Inr ui_both
   \<and> length (filter is_dicom (running ui_both)) \<le> 1
   \<and> length (filter is_seg (running ui_both)) \<le> 1
   \<and> (\<exists>wk \<in> set (running ui_both). is_dicom wk)
   \<and> step ClickConvert ui_both = Inr ui_both
   \<and> (\<exists>wk \<in> set (running ui_both). is_seg wk)
   \<and> step ClickRun ui_both = Inr ui_both"
proof -
  have e: "exec evs_both init = Inr ui_both" by code_simp
  have a: "\<exists>wk \<in> set (running ui_both). is_dicom wk" by code_simp
  have b: "\<exists>wk \<in> set (running ui_both). is_seg wk" by code_simp
  from one_worker_per_stage [OF e] e a b show ?thesis by blast
qed

text \<open>
  Claim C8, as stated, fails. With a volume converted and the task \<open>total\<close> chosen, a click on
  the run button starts a segmentation worker; a click on the convert button while that
  worker is in flight is not refused and starts a conversion worker, so that two workers are
  in flight together.
\<close>

theorem conversion_during_segmentation:
  "exec evs_both init = Inr ui_both
   \<and> running ui_both
       = [SegW \<lparr>sw_nifti_path = Path ''/out/ct.nii.gz'', sw_output_dir = Path ''/out'',
                sw_method = ''TotalSegmentator'', sw_model = ''low'', sw_device = ''gpu'',
                sw_ts_task = ''total''\<rparr>,
          DicomW \<lparr>dw_dicom_dir = Path ''/scan'', dw_output_dir = Path ''/out''\<rparr>]
   \<and> running (projr (exec (evs_total @ [ClickRun]) init))
       = [SegW \<lparr>sw_nifti_path = Path ''/out/ct.nii.gz'', sw_output_dir = Path ''/out'',
                sw_method = ''TotalSegmentator'', sw_model = ''low'', sw_device = ''gpu'',
                sw_ts_task = ''total''\<rparr>]
   \<and> step ClickConvert (projr (exec (evs_total @ [ClickRun]) init)) = Inr ui_both"
  by code_simp

section \<open>Dispatch after validation\<close>

text \<open>The run of a Skellytour worker: the announcement, the launch, then signals only.\<close>

lemma sk_run_shape:
  assumes m: "sw_method self = ''Skellytour''"
  shows "\<exists>sigs. seg_run en self w =
           w\<lparr>trace := trace w @ Emit (Log ''Running Skellytour...'')
                # PopenA (skellytour_cmd self) # map Emit sigs\<rparr>"
proof -
  let ?cmd = "skellytour_cmd self"
  let ?w1 = "w\<lparr>trace := trace w @ [Emit (Log ''Running Skellytour...'')]\<rparr>"
  from run_cmd_shape [of en ?cmd ?w1] obtain sigs where
    sh: "snd (run_cmd en ?cmd ?w1) = ?w1\<lparr>trace := trace ?w1 @ PopenA ?cmd # map Emit sigs\<rparr>"
    by blast
  obtain r w4 where rc: "run_cmd en ?cmd ?w1 = (r, w4)" by (cases "run_cmd en ?cmd ?w1")
  with sh have w4: "w4 = ?w1\<lparr>trace := trace ?w1 @ PopenA ?cmd # map Emit sigs\<rparr>" by simp
  from m rc have body: "seg_body en self w = (r, w4)"
    by (simp add: seg_body_def run_skellytour_def Let_def emit_def act_def)
  show ?thesis
  proof (cases r)
    case (Inr u)
    with body w4 have "seg_run en self w =
            w\<lparr>trace := trace w @ Emit (Log ''Running Skellytour...'') # PopenA ?cmd
                  # map Emit (sigs @ [SegFinished])\<rparr>"
      by (simp add: seg_run_def emit_def act_def)
    then show ?thesis by blast
  next
    case (Inl x)
    with body w4 have "seg_run en self w =
            w\<lparr>trace := trace w @ Emit (Log ''Running Skellytour...'') # PopenA ?cmd
                  # map Emit (sigs @ [Log (''ERROR: '' @ str_exc x), SegFinished])\<rparr>"
      by (simp add: seg_run_def emit_def act_def)
    then show ?thesis by blast
  qed
qed

text \<open>
  Claim C6. With the volume path set (and the output directory it was written to):
  every group header starts with the placeholder mark, and when the selected task
  starts with it, the request only shows the dialog "Invalid Task" and starts no
  worker, so that no process is launched. When the selected item of the task box ends
  with \<open>_mr\<close>, the advisory is logged, then "Starting segmentation...", and the worker is
  created with that task and started, so the request is not blocked; the run of that
  worker dispatches as any other: with the method Skellytour it launches the Skellytour
  command, and otherwise, the directory of the task's results existing or being made, it
  launches TotalSegmentator on the volume with that directory and that task.
\<close>

theorem task_validation:
  assumes np: "nifti_path s = Some np" and od: "output_dir s = Some od"
    and wk: "wk = \<lparr>sw_nifti_path = np, sw_output_dir = Path od,
                    sw_method = method_box s, sw_model = model_box s,
                    sw_device = device_box s, sw_ts_task = ts_task_box s\<rparr>"
  shows "prefix ''---'' (group_header g)
     \<and> (prefix ''---'' (ts_task_box s) \<longrightarrow>
          run_segmentation s =
            Inr (s\<lparr>dialogs := dialogs s
                   @ [(''Invalid Task'', ''Select a valid TotalSegmentator task'')]\<rparr>))
     \<and> (ts_task_box s \<in> set ts_task_items \<and> suffix ''_mr'' (ts_task_box s) \<longrightarrow>
          run_segmentation s =
            Inr (s\<lparr>log_box := log_box s @ [advisory, ''Starting segmentation...'' @ [CHR 0x0A]],
                   run_btn_enabled := False,
                   worker := Some (SegW wk),
                   running := running s @ [SegW wk]\<rparr>)
        \<and> (method_box s = ''Skellytour'' \<longrightarrow>
              PopenA [''skellytour'', ''-i'', str_path np, ''-o'', str_path (Path od),
                      ''-m'', model_box s, ''-d'', device_box s, ''--overwrite'']
                \<in> set (drop (length (trace w)) (trace (seg_run en wk w))))
        \<and> (method_box s \<noteq> ''Skellytour'' \<and> segs (ts_out_dir wk) \<noteq> []
             \<and> parent (ts_out_dir wk) \<in> set (dirs w) \<and> parent (ts_out_dir wk) \<notin> set (files w)
             \<and> ts_out_dir wk \<notin> set (files w) \<longrightarrow>
              PopenA [''TotalSegmentator'', ''-i'', str_path np,
                      ''-o'', str_path (joinpath (Path od) (''segmentations_'' @ ts_task_box s)),
                      ''-ta'', ts_task_box s]
                \<in> set (drop (length (trace w)) (trace (seg_run en wk w)))))"
proof (intro conjI impI)
  show "prefix ''---'' (group_header g)" by (simp add: group_header_def)
next
  assume "prefix ''---'' (ts_task_box s)"
  with np show "run_segmentation s =
            Inr (s\<lparr>dialogs := dialogs s
                   @ [(''Invalid Task'', ''Select a valid TotalSegmentator task'')]\<rparr>)"
    by (simp add: run_segmentation_def warning_def)
next
  assume a: "ts_task_box s \<in> set ts_task_items \<and> suffix ''_mr'' (ts_task_box s)"
  then have "\<not> prefix ''---'' (ts_task_box s)" using mr_items_not_headers by blast
  with a np od wk show "run_segmentation s =
            Inr (s\<lparr>log_box := log_box s @ [advisory, ''Starting segmentation...'' @ [CHR 0x0A]],
                   run_btn_enabled := False,
                   worker := Some (SegW wk),
                   running := running s @ [SegW wk]\<rparr>)"
    by (simp add: run_segmentation_def log_def start_def advisory_def Let_def)
next
  assume "method_box s = ''Skellytour''"
  with wk have m: "sw_method wk = ''Skellytour''" by simp
  have cmd: "skellytour_cmd wk
               = [''skellytour'', ''-i'', str_path np, ''-o'', str_path (Path od),
                  ''-m'', model_box s, ''-d'', device_box s, ''--overwrite'']"
    using wk by (simp add: skellytour_cmd_def)
  from sk_run_shape [OF m, where en=en and w=w] obtain sigs where
    "seg_run en wk w =
       w\<lparr>trace := trace w @ Emit (Log ''Running Skellytour...'')
            # PopenA (skellytour_cmd wk) # map Emit sigs\<rparr>"
    by blast
  then have "PopenA (skellytour_cmd wk) \<in> set (drop (length (trace w)) (trace (seg_run en wk w)))"
    by simp
  then show "PopenA [''skellytour'', ''-i'', str_path np, ''-o'', str_path (Path od),
                      ''-m'', model_box s, ''-d'', device_box s, ''--overwrite'']
                \<in> set (drop (length (trace w)) (trace (seg_run en wk w)))"
    unfolding cmd .
next
  assume c: "method_box s \<noteq> ''Skellytour'' \<and> segs (ts_out_dir wk) \<noteq> []
             \<and> parent (ts_out_dir wk) \<in> set (dirs w) \<and> parent (ts_out_dir wk) \<notin> set (files w)
             \<and> ts_out_dir wk \<notin> set (files w)"
  with wk have m: "sw_method wk \<noteq> ''Skellytour''" by simp
  have cmd: "totalsegmentator_cmd wk
               = [''TotalSegmentator'', ''-i'', str_path np,
                  ''-o'', str_path (joinpath (Path od) (''segmentations_'' @ ts_task_box s)),
                  ''-ta'', ts_task_box s]"
    using wk by (simp add: totalsegmentator_cmd_def ts_out_dir_def)
  from c obtain w3 where ok: "mkdir_exist_ok (ts_out_dir wk) w = Inr w3"
    using mkdir_exist_ok_succeeds [of "ts_out_dir wk" w] by blast
  with ts_run_shape [OF m, where w=w and ?w3.0=w3 and en=en] obtain sigs where
    "seg_run en wk w =
       w3\<lparr>trace := trace w
            @ Emit (Log (''Running TotalSegmentator (task: '' @ sw_ts_task wk @ '')''))
            # MkdirA (ts_out_dir wk) # PopenA (totalsegmentator_cmd wk) # map Emit sigs\<rparr>"
    by blast
  then have "PopenA (totalsegmentator_cmd wk)
               \<in> set (drop (length (trace w)) (trace (seg_run en wk w)))"
    by simp
  then show "PopenA [''TotalSegmentator'', ''-i'', str_path np,
                      ''-o'', str_path (joinpath (Path od) (''segmentations_'' @ ts_task_box s)),
                      ''-ta'', ts_task_box s]
                \<in> set (drop (length (trace w)) (trace (seg_run en wk w)))"
    unfolding cmd .
qed

theorem task_validation_witness:
  "nifti_path ui_converted = Some (Path ''/out/ct.nii.gz'')
   \<and> output_dir ui_converted = Some ''/out''
   \<and> ts_task_box ui_converted = group_header ''CT (default)''
   \<and> prefix ''---'' (ts_task_box ui_converted)
   \<and> run_segmentation ui_converted =
       Inr (ui_converted\<lparr>dialogs := dialogs ui_converted
              @ [(''Invalid Task'', ''Select a valid TotalSegmentator task'')]\<rparr>)
   \<and> nifti_path ui_mr = Some (Path ''/out/ct.nii.gz'')
   \<and> output_dir ui_mr = Some ''/out''
   \<and> ts_task_box ui_mr = ''total_mr''
   \<and> ts_task_box ui_mr \<in> set ts_task_items
   \<and> suffix ''_mr'' (ts_task_box ui_mr)
   \<and> method_box ui_mr \<noteq> ''Skellytour''
   \<and> log_box (projr (run_segmentation ui_mr))
       = log_box ui_mr @ [advisory, ''Starting segmentation...'' @ [CHR 0x0A]]
   \<and> running (projr (run_segmentation ui_mr)) = [SegW sw_mr]
   \<and> segs (ts_out_dir sw_mr) \<noteq> []
   \<and> parent (ts_out_dir sw_mr) \<in> set (dirs world_out)
   \<and> parent (ts_out_dir sw_mr) \<notin> set (files world_out)
   \<and> ts_out_dir sw_mr \<notin> set (files world_out)
   \<and> PopenA [''TotalSegmentator'', ''-i'', ''/out/ct.nii.gz'',
              ''-o'', ''/out/segmentations_total_mr'', ''-ta'', ''total_mr'']
       \<in> set (trace (seg_run env0 sw_mr world_out))"
proof -
  have c: "nifti_path ui_converted = Some (Path ''/out/ct.nii.gz'')"
          "output_dir ui_converted = Some ''/out''"
          "ts_task_box ui_converted = group_header ''CT (default)''"
          "prefix ''---'' (ts_task_box ui_converted)"
    by code_simp+
  have m: "nifti_path ui_mr = Some (Path ''/out/ct.nii.gz'')"
          "output_dir ui_mr = Some ''/out''"
          "ts_task_box ui_mr = ''total_mr''"
          "ts_task_box ui_mr \<in> set ts_task_items"
          "suffix ''_mr'' (ts_task_box ui_mr)"
          "method_box ui_mr \<noteq> ''Skellytour''"
          "running ui_mr = []"
    by code_simp+
  have k: "sw_mr = \<lparr>sw_nifti_path = Path ''/out/ct.nii.gz'', sw_output_dir = Path ''/out'',
                     sw_method = method_box ui_mr, sw_model = model_box ui_mr,
                     sw_device = device_box ui_mr, sw_ts_task = ts_task_box ui_mr\<rparr>"
    by code_simp
  have d: "segs (ts_out_dir sw_mr) \<noteq> []"
          "parent (ts_out_dir sw_mr) \<in> set (dirs world_out)"
          "parent (ts_out_dir sw_mr) \<notin> set (files world_out)"
          "ts_out_dir sw_mr \<notin> set (files world_out)"
          "trace world_out = []"
    by code_simp+
  have p: "str_path (Path ''/out/ct.nii.gz'') = ''/out/ct.nii.gz''"
          "str_path (joinpath (Path ''/out'') (''segmentations_'' @ ''total_mr''))
             = ''/out/segmentations_total_mr''"
    by code_simp+
  from task_validation [OF c(1) c(2) refl, of "''CT (default)''"] c
  have first: "run_segmentation ui_converted =
       Inr (ui_converted\<lparr>dialogs := dialogs ui_converted
              @ [(''Invalid Task'', ''Select a valid TotalSegmentator task'')]\<rparr>)"
    by blast
  from task_validation [OF m(1) m(2) k, of "''CT (default)''" world_out env0] m d
  have run: "run_segmentation ui_mr =
            Inr (ui_mr\<lparr>log_box := log_box ui_mr @ [advisory, ''Starting segmentation...'' @ [CHR 0x0A]],
                   run_btn_enabled := False,
                   worker := Some (SegW sw_mr),
                   running := running ui_mr @ [SegW sw_mr]\<rparr>)"
    and launch: "PopenA [''TotalSegmentator'', ''-i'', str_path (Path ''/out/ct.nii.gz''),
                      ''-o'', str_path (joinpath (Path ''/out'') (''segmentations_'' @ ts_task_box ui_mr)),
                      ''-ta'', ts_task_box ui_mr]
                \<in> set (drop (length (trace world_out)) (trace (seg_run env0 sw_mr world_out)))"
    by blast+
  from launch have launch': "PopenA [''TotalSegmentator'', ''-i'', ''/out/ct.nii.gz'',
              ''-o'', ''/out/segmentations_total_mr'', ''-ta'', ''total_mr'']
       \<in> set (trace (seg_run env0 sw_mr world_out))"
    using p m(3) d(5) by simp
  from run m(7) have r: "log_box (projr (run_segmentation ui_mr))
       = log_box ui_mr @ [advisory, ''Starting segmentation...'' @ [CHR 0x0A]]"
       "running (projr (run_segmentation ui_mr)) = [SegW sw_mr]"
    by simp_all
  from c first m r d(1-4) launch' show ?thesis by blast
qed

end
